theory Spec2Isabelle
  imports Complex_Main "HOL-Library.Sublist"
begin

section \<open>Python values and exceptions\<close>

text \<open>
  The guest agent client exchanges JSON documents. A parsed document is a Python value:
  \<open>None\<close>, a bool, an int, a float, a str, a list or a dict with str keys; the command
  API also puts \<open>bytes\<close> objects into argument dicts. A finite float is kept by its exact
  value (Python compares a float with an int exactly); \<open>PFloatNonFinite\<close> stands for
  \<open>inf\<close>, \<open>-inf\<close> and \<open>nan\<close>. A dict is an association list with distinct keys in insertion
  order. Text and bytes are both character lists: the model identifies ASCII text
  with its UTF-8 encoding.
\<close>

type_synonym bytes = string

datatype pyval =
    PNone
  | PBool bool
  | PInt int
  | PFloat rat
  | PFloatNonFinite
  | PStr string
  | PBytes bytes
  | PList "pyval list"
  | PDict "(string \<times> pyval) list"

text \<open>
  The exceptions that the modelled code raises or lets through. \<open>ProtocolError\<close> carries
  \<open>errno\<close> and \<open>msg\<close> as in the source class; \<open>PyException\<close> is the plain \<open>Exception(msg)\<close>
  of the relay client.
\<close>

datatype exn =
    ProtocolError int string
  | PyException string
  | AttributeError
  | TypeError
  | KeyError string
  | ValueError
  | UnicodeError
  | BinasciiError
  | OSError int string
  | FatalError string
  | CollectionError string
  | ZeroDivisionError

text \<open>\<open>key in obj\<close> for a str key: membership in a dict, a list or a str (substring).\<close>

fun py_in :: "string \<Rightarrow> pyval \<Rightarrow> exn + bool" where
  "py_in k (PDict kvs) = Inr (k \<in> set (map fst kvs))"
| "py_in k (PList xs) = Inr (PStr k \<in> set xs)"
| "py_in k (PStr s) = Inr (sublist k s)"
| "py_in k _ = Inl TypeError"

text \<open>\<open>obj[key]\<close> for a str key: only a dict can be subscripted with a str.\<close>

fun py_getitem :: "pyval \<Rightarrow> string \<Rightarrow> exn + pyval" where
  "py_getitem (PDict kvs) k =
     (case map_of kvs k of None \<Rightarrow> Inl (KeyError k) | Some v \<Rightarrow> Inr v)"
| "py_getitem _ k = Inl TypeError"

text \<open>\<open>obj[key] = v\<close> on a dict: replaces the value in place or appends the key.\<close>

fun dict_set :: "(string \<times> 'a) list \<Rightarrow> string \<Rightarrow> 'a \<Rightarrow> (string \<times> 'a) list" where
  "dict_set [] k v = [(k, v)]"
| "dict_set ((k', v') # kvs) k v =
     (if k' = k then (k, v) # kvs else (k', v') # dict_set kvs k v)"

fun py_setitem :: "pyval \<Rightarrow> string \<Rightarrow> pyval \<Rightarrow> exn + pyval" where
  "py_setitem (PDict kvs) k v = Inr (PDict (dict_set kvs k v))"
| "py_setitem _ k v = Inl TypeError"

text \<open>\<open>v == n\<close> for an int \<open>n\<close>: bool is a subclass of int, a float is compared by value.\<close>

fun py_eq_int :: "pyval \<Rightarrow> int \<Rightarrow> bool" where
  "py_eq_int (PBool b) n = ((if b then 1 else 0) = n)"
| "py_eq_int (PInt i) n = (i = n)"
| "py_eq_int (PFloat r) n = (r = of_int n)"
| "py_eq_int _ n = False"

text \<open>Truth value of an object, as tested by \<open>if obj:\<close>.\<close>

fun truthy :: "pyval \<Rightarrow> bool" where
  "truthy PNone = False"
| "truthy (PBool b) = b"
| "truthy (PInt i) = (i \<noteq> 0)"
| "truthy (PFloat r) = (r \<noteq> 0)"
| "truthy PFloatNonFinite = True"
| "truthy (PStr s) = (s \<noteq> [])"
| "truthy (PBytes b) = (b \<noteq> [])"
| "truthy (PList xs) = (xs \<noteq> [])"
| "truthy (PDict kvs) = (kvs \<noteq> [])"

section \<open>Library functions\<close>

text \<open>
  \<open>json.loads\<close>, the text part of \<open>json.dumps\<close> and the UTF-8 codec are library code,
  not part of the program: they are parameters of the model. \<open>loads\<close> raises
  \<open>ValueError\<close> on text that is not JSON.
\<close>

record jsonlib =
  loads :: "string \<Rightarrow> exn + pyval"
  dumps_text :: "pyval \<Rightarrow> string"
  encode_utf8 :: "string \<Rightarrow> bytes"
  decode_utf8 :: "bytes \<Rightarrow> exn + string"

text \<open>
  \<open>json.dumps\<close> raises \<open>TypeError\<close> on an object that is not JSON serializable; of the
  values above these are exactly the ones that contain a \<open>bytes\<close> object.
\<close>

fun serializable :: "pyval \<Rightarrow> bool" where
  "serializable (PBytes b) = False"
| "serializable (PList xs) = list_all serializable xs"
| "serializable (PDict kvs) = list_all (\<lambda>kv. serializable (snd kv)) kvs"
| "serializable _ = True"

definition json_dumps :: "jsonlib \<Rightarrow> pyval \<Rightarrow> exn + string" where
  "json_dumps L v = (if serializable v then Inr (dumps_text L v) else Inl TypeError)"

section \<open>QemuAgentRet\<close>

text \<open>
  \<^verbatim>\<open>
  def __init__(self, json_str):
      obj = json.loads(json_str)
      if 'error' in obj:
          self.error = obj['error']
          self.data = None
      else:
          self.error = None
          self.data = obj['return']
  \<close>
\<close>

record QemuAgentRet_obj =
  error :: pyval
  data :: pyval

definition QemuAgentRet :: "jsonlib \<Rightarrow> string \<Rightarrow> exn + QemuAgentRet_obj" where
  "QemuAgentRet L json_str =
     (case loads L json_str of
        Inl e \<Rightarrow> Inl e
      | Inr obj \<Rightarrow>
         (case py_in ''error'' obj of
            Inl e \<Rightarrow> Inl e
          | Inr True \<Rightarrow>
             (case py_getitem obj ''error'' of
                Inl e \<Rightarrow> Inl e
              | Inr v \<Rightarrow> Inr \<lparr>error = v, data = PNone\<rparr>)
          | Inr False \<Rightarrow>
             (case py_getitem obj ''return'' of
                Inl e \<Rightarrow> Inl e
              | Inr v \<Rightarrow> Inr \<lparr>error = PNone, data = v\<rparr>)))"

section \<open>Sockets\<close>

text \<open>
  A socket object is modelled by what the peer and the kernel will do with it: a
  script of outcomes for the successive \<open>send\<close> calls, a script for the successive
  \<open>recv(1)\<close> calls, and whether \<open>shutdown\<close> raises \<open>socket.error\<close>. \<open>SendRoom n\<close> means
  that the kernel accepts at most \<open>n\<close> bytes of the buffer it is given; \<open>wire\<close> collects
  the bytes accepted so far, in order. Every socket has a timeout (\<open>settimeout(2)\<close>),
  so an exhausted script is a timeout. \<open>RecvClosed\<close> is the orderly close of the peer:
  \<open>recv\<close> returns \<open>b''\<close>, and keeps doing so.
\<close>

datatype send_ev = SendRoom nat | SendTimeout | SendError int string

datatype recv_ev = RecvByte char | RecvClosed | RecvTimeout | RecvError int string

record sockobj =
  send_script :: "send_ev list"
  recv_script :: "recv_ev list"
  shutdown_fails :: bool
  wire :: bytes
  closed :: bool

text \<open>The outcome of a socket primitive: a value, \<open>socket.timeout\<close> or \<open>socket.error\<close>.\<close>

datatype 'a sockres = Done 'a | Timeout | SockError int string

definition send_prim :: "bytes \<Rightarrow> sockobj \<Rightarrow> nat sockres \<times> sockobj" where
  "send_prim buf s =
     (if closed s then (SockError 9 ''Bad file descriptor'', s)
      else case send_script s of
        [] \<Rightarrow> (Timeout, s)
      | SendRoom n # evs \<Rightarrow>
          (Done (min n (length buf)), s\<lparr>send_script := evs, wire := wire s @ take n buf\<rparr>)
      | SendTimeout # evs \<Rightarrow> (Timeout, s\<lparr>send_script := evs\<rparr>)
      | SendError en m # evs \<Rightarrow> (SockError en m, s\<lparr>send_script := evs\<rparr>))"

definition recv_prim :: "sockobj \<Rightarrow> bytes sockres \<times> sockobj" where
  "recv_prim s =
     (if closed s then (SockError 9 ''Bad file descriptor'', s)
      else case recv_script s of
        [] \<Rightarrow> (Timeout, s)
      | RecvByte ch # evs \<Rightarrow> (Done [ch], s\<lparr>recv_script := evs\<rparr>)
      | RecvClosed # evs \<Rightarrow> (Done [], s)
      | RecvTimeout # evs \<Rightarrow> (Timeout, s\<lparr>recv_script := evs\<rparr>)
      | RecvError en m # evs \<Rightarrow> (SockError en m, s\<lparr>recv_script := evs\<rparr>))"

text \<open>
  \<open>sock.shutdown(SHUT_RDWR); sock.close()\<close> inside \<open>try ... except socket.error: pass\<close>:
  when \<open>shutdown\<close> raises, \<open>close\<close> is skipped.
\<close>

definition close_prim :: "sockobj \<Rightarrow> sockobj" where
  "close_prim s = (if closed s \<or> shutdown_fails s then s else s\<lparr>closed := True\<rparr>)"

text \<open>
  What a connection attempt meets: \<open>socket.socket\<close> raising \<open>socket.error\<close>, or a new
  socket object together with the outcome of \<open>connect\<close>.
\<close>

datatype conn_ev = ConnOk | ConnTimeout | ConnError int string

datatype endpoint = NoSocket int string | Endpoint conn_ev sockobj

section \<open>The socket client\<close>

text \<open>
  The state of a \<open>_QemuGuestAgentSocketClient\<close> and of its surroundings: \<open>sock\<close> is the
  attribute \<open>self.sock\<close>, a reference into the store \<open>heap\<close> of the socket objects
  created so far (\<open>nsocks\<close> of them); \<open>net\<close> lists what the coming connection attempts
  will meet, \<open>now\<close> is the reading of \<open>time.time()\<close> in whole seconds. The methods
  \<open>_sock_send\<close>, \<open>_sock_recv_until\<close>, \<open>_sock_close\<close>, \<open>_reset_conn\<close>, \<open>_connect\<close>,
  \<open>_make_connection\<close> and \<open>_call\<close> drop their leading underscore here. A method
  returns its result, or the exception it raises, together with the new state.
\<close>

record client =
  where_path :: string
  sock :: "nat option"
  heap :: "nat \<Rightarrow> sockobj"
  nsocks :: nat
  net :: "endpoint list"
  now :: int


definition put_sock :: "nat \<Rightarrow> sockobj \<Rightarrow> client \<Rightarrow> client" where
  "put_sock i s c = c\<lparr>heap := (heap c)(i := s)\<rparr>"

text \<open>\<open>_sock_close(sock)\<close>: with \<open>None\<close> for \<open>sock\<close>, \<open>sock.shutdown\<close> is an AttributeError.\<close>

definition sock_close :: "nat option \<Rightarrow> client \<Rightarrow> (exn + unit) \<times> client" where
  "sock_close so c =
     (case so of
        None \<Rightarrow> (Inl AttributeError, c)
      | Some i \<Rightarrow> (Inr (), put_sock i (close_prim (heap c i)) c))"

text \<open>
  The handler that every transport fault runs:
  \<^verbatim>\<open>
      self._sock_close(self.sock)
      self.sock = None
      raise ProtocolError(errno, msg)
  \<close>
\<close>

definition teardown :: "int \<Rightarrow> string \<Rightarrow> client \<Rightarrow> (exn + 'a) \<times> client" where
  "teardown en m c =
     (case sock_close (sock c) c of
        (Inl e, c') \<Rightarrow> (Inl e, c')
      | (Inr u, c') \<Rightarrow> (Inl (ProtocolError en m), c'\<lparr>sock := None\<rparr>))"

text \<open>
  \<^verbatim>\<open>
  def _sock_send(self, sock, msg):
      sent = 0
      while sent < len(msg):
          try:
              ret = sock.send(msg[sent:])
          except socket.timeout: ... raise ProtocolError(-1, "Timed out")
          except socket.error as e: ... raise ProtocolError(e.errno, e.strerror)
          if ret == 0:
              ... raise ProtocolError(-1, "Unable to send on socket")
          sent = sent + ret
  \<close>
\<close>

function sock_send_loop :: "nat \<Rightarrow> bytes \<Rightarrow> nat \<Rightarrow> client \<Rightarrow> (exn + unit) \<times> client" where
  "sock_send_loop i msg sent c =
     (if sent < length msg then
        (case send_prim (drop sent msg) (heap c i) of
           (Timeout, s') \<Rightarrow> teardown (- 1) ''Timed out'' (put_sock i s' c)
         | (SockError en m, s') \<Rightarrow> teardown en m (put_sock i s' c)
         | (Done ret, s') \<Rightarrow>
             (if ret = 0 then teardown (- 1) ''Unable to send on socket'' (put_sock i s' c)
              else sock_send_loop i msg (sent + ret) (put_sock i s' c)))
      else (Inr (), c))"
  by pat_completeness auto
termination
  by (relation "measure (\<lambda>(i, msg, sent, c). length msg - sent)") auto

definition sock_send :: "nat \<Rightarrow> bytes \<Rightarrow> client \<Rightarrow> (exn + unit) \<times> client" where
  "sock_send i msg c = sock_send_loop i msg 0 c"

text \<open>\<open>data[-k:]\<close>: the last \<open>k\<close> bytes, all of \<open>data\<close> when \<open>k\<close> is 0 or exceeds its length.\<close>

definition py_tail :: "bytes \<Rightarrow> nat \<Rightarrow> bytes" where
  "py_tail d k = (if k = 0 then d else drop (length d - k) d)"

text \<open>
  \<^verbatim>\<open>
  def _sock_recv_until(self, sock, token):
      data = b""
      while True:
          if len(data) > 4096:
              return None
          try:
              ch = sock.recv(1)
          except socket.timeout: ... raise ProtocolError(-1, "Timed out")
          except socket.error as e: ... raise ProtocolError(e.errno, e.strerror)
          if ch == b'':
              self.logger.debug("Connection closed")
              return None
          data += ch
          if data[-len(token):] == token:
              return data
  \<close>
\<close>

function sock_recv_until_loop ::
  "nat \<Rightarrow> bytes \<Rightarrow> bytes \<Rightarrow> client \<Rightarrow> (exn + bytes option) \<times> client" where
  "sock_recv_until_loop i token d c =
     (if length d > 4096 then (Inr None, c)
      else
        (case recv_prim (heap c i) of
           (Timeout, s') \<Rightarrow> teardown (- 1) ''Timed out'' (put_sock i s' c)
         | (SockError en m, s') \<Rightarrow> teardown en m (put_sock i s' c)
         | (Done ch, s') \<Rightarrow>
             (if ch = [] then (Inr None, put_sock i s' c)
              else if py_tail (d @ ch) (length token) = token
                   then (Inr (Some (d @ ch)), put_sock i s' c)
                   else sock_recv_until_loop i token (d @ ch) (put_sock i s' c))))"
  by pat_completeness auto
termination
  by (relation "measure (\<lambda>(i, token, d, c). 4097 - length d)") (auto simp: neq_Nil_conv)

declare sock_send_loop.simps [simp del]
declare sock_recv_until_loop.simps [simp del]

definition sock_recv_until :: "nat \<Rightarrow> bytes \<Rightarrow> client \<Rightarrow> (exn + bytes option) \<times> client" where
  "sock_recv_until i token c = sock_recv_until_loop i token [] c"

text \<open>
  A read that returns data has taken at least one byte from the socket's script.
\<close>

lemma recv_prim_Done:
  "recv_prim s = (Done ch, s') \<Longrightarrow> ch \<noteq> [] \<Longrightarrow>
     length (recv_script s') < length (recv_script s)"
  by (auto simp: recv_prim_def split: if_splits list.splits recv_ev.splits)

lemma teardown_not_Inr: "teardown en m c \<noteq> (Inr x, c')"
  by (auto simp: teardown_def split: prod.splits sum.splits)

lemma recv_until_loop_shrinks:
  "sock_recv_until_loop i token d c = (Inr (Some x), c') \<Longrightarrow>
     length (recv_script (heap c' i)) < length (recv_script (heap c i))"
proof (induction i token d c rule: sock_recv_until_loop.induct)
  case (1 i token d c)
  show ?case
  proof (cases "recv_prim (heap c i)")
    case (Pair r s')
    from "1.prems" have small: "\<not> 4096 < length d"
      by (subst (asm) sock_recv_until_loop.simps) (simp split: if_splits)
    from "1.prems" small Pair obtain ch where r: "r = Done ch" and ch: "ch \<noteq> []"
      by (subst (asm) sock_recv_until_loop.simps)
         (auto simp: teardown_not_Inr split: sockres.splits if_splits)
    have less: "length (recv_script s') < length (recv_script (heap c i))"
      using recv_prim_Done Pair r ch by blast
    show ?thesis
    proof (cases "py_tail (d @ ch) (length token) = token")
      case True
      with "1.prems" small Pair r ch have "c' = put_sock i s' c"
        by (subst (asm) sock_recv_until_loop.simps) simp
      with less show ?thesis by (simp add: put_sock_def)
    next
      case False
      with "1.prems" small Pair r ch
      have "sock_recv_until_loop i token (d @ ch) (put_sock i s' c) = (Inr (Some x), c')"
        by (subst (asm) sock_recv_until_loop.simps) simp
      from "1.IH"[OF small Pair[symmetric] r ch False this] less
      show ?thesis by (simp add: put_sock_def)
    qed
  qed
qed

definition newline :: bytes where
  "newline = [CHR 0x0A]"

text \<open>
  \<^verbatim>\<open>
  def _reset_conn(self, sock):
      seq = int(time.time() % 2147483647) # Long_max
      request = { 'execute': 'guest-sync', 'arguments': { 'id': seq } }
      req_str = json.dumps(request)
      self._sock_send(sock, req_str.encode('utf-8'))

      # Read data from the channel until we get a matching response
      while True:
          response = self._sock_recv_until(sock, b"\n").decode('utf-8')
          resp_obj = json.loads(response)
          if 'return' in resp_obj:
              try:
                  if resp_obj['return'] == seq:
                      break
              except TypeError:
                  pass
  \<close>
  \<open>_sock_recv_until\<close> may return \<open>None\<close>, and \<open>None.decode\<close> is an AttributeError.
\<close>

function reset_conn_loop :: "jsonlib \<Rightarrow> nat \<Rightarrow> int \<Rightarrow> client \<Rightarrow> (exn + unit) \<times> client" where
  "reset_conn_loop L i seq c =
     (case sock_recv_until i newline c of
        (Inl e, c') \<Rightarrow> (Inl e, c')
      | (Inr None, c') \<Rightarrow> (Inl AttributeError, c')
      | (Inr (Some d), c') \<Rightarrow>
          (case decode_utf8 L d of
             Inl e \<Rightarrow> (Inl e, c')
           | Inr response \<Rightarrow>
               (case loads L response of
                  Inl e \<Rightarrow> (Inl e, c')
                | Inr resp_obj \<Rightarrow>
                    (case py_in ''return'' resp_obj of
                       Inl e \<Rightarrow> (Inl e, c')
                     | Inr False \<Rightarrow> reset_conn_loop L i seq c'
                     | Inr True \<Rightarrow>
                         (case py_getitem resp_obj ''return'' of
                            Inl TypeError \<Rightarrow> reset_conn_loop L i seq c'
                          | Inl e \<Rightarrow> (Inl e, c')
                          | Inr v \<Rightarrow>
                              (if py_eq_int v seq then (Inr (), c')
                               else reset_conn_loop L i seq c'))))))"
  by pat_completeness auto
termination
  by (relation "measure (\<lambda>(L, i, seq, c). length (recv_script (heap c i)))")
     (auto simp: sock_recv_until_def dest: recv_until_loop_shrinks [OF sym])

declare reset_conn_loop.simps [simp del]

definition sync_request :: "int \<Rightarrow> pyval" where
  "sync_request seq =
     PDict [(''execute'', PStr ''guest-sync''), (''arguments'', PDict [(''id'', PInt seq)])]"

definition reset_conn :: "jsonlib \<Rightarrow> nat \<Rightarrow> client \<Rightarrow> (exn + unit) \<times> client" where
  "reset_conn L i c =
     (let seq = now c mod 2147483647 in
      case json_dumps L (sync_request seq) of
        Inl e \<Rightarrow> (Inl e, c)
      | Inr req_str \<Rightarrow>
          (case sock_send i (encode_utf8 L req_str) c of
             (Inl e, c') \<Rightarrow> (Inl e, c')
           | (Inr u, c') \<Rightarrow> reset_conn_loop L i seq c'))"

text \<open>
  \<^verbatim>\<open>
  def _connect(self):
      try:
          self.sock = socket.socket(sock_type, socket.SOCK_STREAM)
          self.sock.settimeout(2)
          self.sock.connect(self.where)
          self._reset_conn(self.sock)
      except socket.timeout:
          self._sock_close(self.sock)
          self.sock = None
          raise ProtocolError(-1, "Timed out")
      except socket.error as e:
          self._sock_close(self.sock)
          self.sock = None
          raise ProtocolError(e.errno, "Connection failed: %s" % e.strerror)
  \<close>
  A new socket object is open and has sent nothing. When no endpoint is left,
  nothing listens at the path and \<open>connect\<close> is refused. \<open>_sock_send\<close> and
  \<open>_sock_recv_until\<close> turn the socket's exceptions into \<open>ProtocolError\<close>, which is not a
  \<open>socket.error\<close>: what \<open>_reset_conn\<close> raises passes through the handlers.
\<close>

definition blank_sock :: sockobj where
  "blank_sock =
     \<lparr>send_script = [], recv_script = [], shutdown_fails = False, wire = [], closed = False\<rparr>"

definition next_endpoint :: "client \<Rightarrow> endpoint \<times> endpoint list" where
  "next_endpoint c =
     (case net c of
        [] \<Rightarrow> (Endpoint (ConnError 111 ''Connection refused'') blank_sock, [])
      | ep # eps \<Rightarrow> (ep, eps))"

definition connect :: "jsonlib \<Rightarrow> client \<Rightarrow> (exn + unit) \<times> client" where
  "connect L c =
     (case next_endpoint c of
        (NoSocket en m, eps) \<Rightarrow> teardown en (''Connection failed: '' @ m) (c\<lparr>net := eps\<rparr>)
      | (Endpoint ev s, eps) \<Rightarrow>
          (let i = nsocks c;
               c1 = c\<lparr>sock := Some i, heap := (heap c)(i := s\<lparr>wire := [], closed := False\<rparr>),
                       nsocks := Suc i, net := eps\<rparr>
           in case ev of
                ConnTimeout \<Rightarrow> teardown (- 1) ''Timed out'' c1
              | ConnError en m \<Rightarrow> teardown en (''Connection failed: '' @ m) c1
              | ConnOk \<Rightarrow> reset_conn L i c1))"

text \<open>
  \<^verbatim>\<open>
  def _make_connection(self):
      if self.sock is None:
          self._connect()
      return self.sock
  \<close>
  After \<open>_connect\<close> has returned, \<open>self.sock\<close> is a socket; were it \<open>None\<close>, the caller's
  first use of it would be an AttributeError.
\<close>

definition make_connection :: "jsonlib \<Rightarrow> client \<Rightarrow> (exn + nat) \<times> client" where
  "make_connection L c =
     (case sock c of
        Some i \<Rightarrow> (Inr i, c)
      | None \<Rightarrow>
          (case connect L c of
             (Inl e, c') \<Rightarrow> (Inl e, c')
           | (Inr u, c') \<Rightarrow>
               (case sock c' of
                  Some i \<Rightarrow> (Inr i, c')
                | None \<Rightarrow> (Inl AttributeError, c'))))"

text \<open>
  \<^verbatim>\<open>
  def _call(self, command, args={}):
      request = { 'execute': command, 'arguments': args }
      json_str = json.dumps(request)

      sock = self._make_connection()
      self._sock_send(sock, json_str.encode('utf-8'))
      response = self._sock_recv_until(sock, b"\n").decode('utf-8')
      return QemuAgentRet(response)
  \<close>
\<close>

definition make_request :: "string \<Rightarrow> pyval \<Rightarrow> pyval" where
  "make_request command args = PDict [(''execute'', PStr command), (''arguments'', args)]"

definition call ::
  "jsonlib \<Rightarrow> string \<Rightarrow> pyval \<Rightarrow> client \<Rightarrow> (exn + QemuAgentRet_obj) \<times> client" where
  "call L command args c =
     (case json_dumps L (make_request command args) of
        Inl e \<Rightarrow> (Inl e, c)
      | Inr json_str \<Rightarrow>
          (case make_connection L c of
             (Inl e, c1) \<Rightarrow> (Inl e, c1)
           | (Inr i, c1) \<Rightarrow>
               (case sock_send i (encode_utf8 L json_str) c1 of
                  (Inl e, c2) \<Rightarrow> (Inl e, c2)
                | (Inr u, c2) \<Rightarrow>
                    (case sock_recv_until i newline c2 of
                       (Inl e, c3) \<Rightarrow> (Inl e, c3)
                     | (Inr None, c3) \<Rightarrow> (Inl AttributeError, c3)
                     | (Inr (Some d), c3) \<Rightarrow>
                         (case decode_utf8 L d of
                            Inl e \<Rightarrow> (Inl e, c3)
                          | Inr response \<Rightarrow>
                              (case QemuAgentRet L response of
                                 Inl e \<Rightarrow> (Inl e, c3)
                               | Inr r \<Rightarrow> (Inr r, c3)))))))"

section \<open>The relay client\<close>

text \<open>
  The hypervisor interface is an object from another module. The client uses one
  attribute of it: \<open>getattr(hypervisor_iface, 'qemuAgentCommand')\<close> yields the method,
  which maps the guest's uuid and the request text to the response text, or raises
  (a plain object raises AttributeError, an interface that looks its methods up in
  a table raises KeyError).
  \<^verbatim>\<open>
  def __init__(self, uuid, hypervisor_iface):
      try:
          getattr(hypervisor_iface, 'qemuAgentCommand')
      except KeyError:
          raise Exception("hypervisor does not support qemuAgentCommand")
      self.hypervisor_iface = hypervisor_iface
      self.uuid = uuid
      self.api = _QemuGuestAgentAPI(self)

  def _call(self, command, args={}):
      request = { 'execute': command, 'arguments': args }
      json_str = json.dumps(request)

      response = self.hypervisor_iface.qemuAgentCommand(self.uuid, json_str)
      return QemuAgentRet(response)
  \<close>
\<close>

record iface =
  getattr_qemuAgentCommand :: "exn + (string \<Rightarrow> string \<Rightarrow> exn + string)"

record libvirt_client =
  hypervisor_iface :: iface
  uuid :: string

definition Libvirt_init :: "string \<Rightarrow> iface \<Rightarrow> exn + libvirt_client" where
  "Libvirt_init u hi =
     (case getattr_qemuAgentCommand hi of
        Inl (KeyError k) \<Rightarrow> Inl (PyException ''hypervisor does not support qemuAgentCommand'')
      | Inl e \<Rightarrow> Inl e
      | Inr f \<Rightarrow> Inr \<lparr>hypervisor_iface = hi, uuid = u\<rparr>)"

definition Libvirt_call ::
  "jsonlib \<Rightarrow> libvirt_client \<Rightarrow> string \<Rightarrow> pyval \<Rightarrow> exn + QemuAgentRet_obj" where
  "Libvirt_call L self command args =
     (case json_dumps L (make_request command args) of
        Inl e \<Rightarrow> Inl e
      | Inr json_str \<Rightarrow>
          (case getattr_qemuAgentCommand (hypervisor_iface self) of
             Inl e \<Rightarrow> Inl e
           | Inr f \<Rightarrow>
               (case f (uuid self) json_str of
                  Inl e \<Rightarrow> Inl e
                | Inr response \<Rightarrow> QemuAgentRet L response)))"

section \<open>Base64\<close>

text \<open>
  \<open>base64.b64encode\<close> maps a bytes object to a bytes object (in Python 3, which the
  code is written for: it encodes what it sends and decodes what it receives): three
  bytes become four characters of the alphabet, the last group is padded with \<open>=\<close>.
\<close>

definition b64_alphabet :: string where
  "b64_alphabet = ''ABCDEFGHIJKLMNOPQRSTUVWXYZabcdefghijklmnopqrstuvwxyz0123456789+/''"

definition b64_char :: "nat \<Rightarrow> char" where
  "b64_char n = b64_alphabet ! (n mod 64)"

fun b64encode :: "bytes \<Rightarrow> bytes" where
  "b64encode [] = []"
| "b64encode [a] =
     (let x = (of_char a :: nat)
      in [b64_char (x div 4), b64_char ((x mod 4) * 16), CHR ''='', CHR ''=''])"
| "b64encode [a, b] =
     (let x = (of_char a :: nat); y = (of_char b :: nat)
      in [b64_char (x div 4), b64_char ((x mod 4) * 16 + y div 16),
          b64_char ((y mod 16) * 4), CHR ''=''])"
| "b64encode (a # b # c # rest) =
     (let x = (of_char a :: nat); y = (of_char b :: nat); z = (of_char c :: nat)
      in [b64_char (x div 4), b64_char ((x mod 4) * 16 + y div 16),
          b64_char ((y mod 16) * 4 + z div 64), b64_char (z mod 64)] @ b64encode rest)"

text \<open>
  \<open>base64.b64decode\<close> in its default, lenient mode, as \<open>binascii.a2b_base64\<close> does it:
  characters outside the alphabet are skipped, a pad that completes a group ends
  the input, and a group left open at the end is an error. \<open>q\<close> is the position in
  the current group of four, \<open>pads\<close> the number of pads just seen, \<open>left\<close> the bits not
  yet written.
\<close>

fun index_of :: "char \<Rightarrow> string \<Rightarrow> nat \<Rightarrow> nat option" where
  "index_of ch [] n = None"
| "index_of ch (x # xs) n = (if x = ch then Some n else index_of ch xs (Suc n))"

fun a2b_base64 :: "bytes \<Rightarrow> nat \<Rightarrow> nat \<Rightarrow> nat \<Rightarrow> bytes \<Rightarrow> exn + bytes" where
  "a2b_base64 [] q pads left out = (if q \<noteq> 0 then Inl BinasciiError else Inr out)"
| "a2b_base64 (ch # cs) q pads left out =
     (if ch = CHR ''='' then
        (if q \<ge> 2 \<and> q + (pads + 1) \<ge> 4 then Inr out
         else a2b_base64 cs q (if q \<ge> 2 then pads + 1 else pads) left out)
      else
        (case index_of ch b64_alphabet 0 of
           None \<Rightarrow> a2b_base64 cs q pads left out
         | Some v \<Rightarrow>
             (if q = 0 then a2b_base64 cs 1 0 v out
              else if q = 1 then
                a2b_base64 cs 2 0 (v mod 16) (out @ [char_of (left * 4 + v div 16)])
              else if q = 2 then
                a2b_base64 cs 3 0 (v mod 4) (out @ [char_of (left * 16 + v div 4)])
              else a2b_base64 cs 0 0 0 (out @ [char_of (left * 64 + v)]))))"

text \<open>
  \<open>b64decode\<close> takes a bytes object or an ASCII str; a str with other characters is
  a ValueError, another type a TypeError.
\<close>

fun b64decode :: "pyval \<Rightarrow> exn + bytes" where
  "b64decode (PBytes b) = a2b_base64 b 0 0 0 []"
| "b64decode (PStr s) =
     (if list_all (\<lambda>ch. (of_char ch :: nat) < 128) s then a2b_base64 s 0 0 0 []
      else Inl ValueError)"
| "b64decode _ = Inl TypeError"

section \<open>The command API\<close>

text \<open>
  \<open>_QemuGuestAgentAPI\<close> wraps the \<open>_call\<close> method of either client; \<open>cl\<close> is that method,
  acting on the client's state.
  \<^verbatim>\<open>
  def ping(self):
      return self.client._call('guest-ping')

  def file_open(self, path, mode="r"):
      args = { 'path': path, 'mode': mode }
      return self.client._call('guest-file-open', args)

  def file_close(self, handle):
      args = { 'handle': handle }
      return self.client._call('guest-file-close', args)

  def file_read(self, handle, count):
      args = { 'handle': handle, 'count': count }
      ret = self.client._call('guest-file-read', args)
      if ret.data:
          # Decode the buffer before returning it
          ret.data['buf'] = base64.b64decode(ret.data['buf-b64'])
      return ret

  def file_write(self, handle, buffer):
      args = { 'handle': handle, 'buf-b64': base64.b64encode(buffer) }
      return self.client._call('guest-file-write', args)
  \<close>
\<close>

type_synonym 's call_method = "string \<Rightarrow> pyval \<Rightarrow> 's \<Rightarrow> (exn + QemuAgentRet_obj) \<times> 's"

definition ping :: "'s call_method \<Rightarrow> 's \<Rightarrow> (exn + QemuAgentRet_obj) \<times> 's" where
  "ping cl s = cl ''guest-ping'' (PDict []) s"

definition file_open ::
  "'s call_method \<Rightarrow> pyval \<Rightarrow> pyval \<Rightarrow> 's \<Rightarrow> (exn + QemuAgentRet_obj) \<times> 's" where
  "file_open cl path mode s =
     cl ''guest-file-open'' (PDict [(''path'', path), (''mode'', mode)]) s"

definition file_close :: "'s call_method \<Rightarrow> pyval \<Rightarrow> 's \<Rightarrow> (exn + QemuAgentRet_obj) \<times> 's" where
  "file_close cl handle s = cl ''guest-file-close'' (PDict [(''handle'', handle)]) s"

definition file_read_args :: "pyval \<Rightarrow> pyval \<Rightarrow> pyval" where
  "file_read_args handle count = PDict [(''handle'', handle), (''count'', count)]"

definition decode_buffer :: "QemuAgentRet_obj \<Rightarrow> exn + QemuAgentRet_obj" where
  "decode_buffer ret =
     (if truthy (data ret) then
        (case py_getitem (data ret) ''buf-b64'' of
           Inl e \<Rightarrow> Inl e
         | Inr v \<Rightarrow>
             (case b64decode v of
                Inl e \<Rightarrow> Inl e
              | Inr b \<Rightarrow>
                  (case py_setitem (data ret) ''buf'' (PBytes b) of
                     Inl e \<Rightarrow> Inl e
                   | Inr d \<Rightarrow> Inr (ret\<lparr>data := d\<rparr>))))
      else Inr ret)"

definition file_read ::
  "'s call_method \<Rightarrow> pyval \<Rightarrow> pyval \<Rightarrow> 's \<Rightarrow> (exn + QemuAgentRet_obj) \<times> 's" where
  "file_read cl handle count s =
     (case cl ''guest-file-read'' (file_read_args handle count) s of
        (Inl e, s') \<Rightarrow> (Inl e, s')
      | (Inr ret, s') \<Rightarrow> (decode_buffer ret, s'))"

definition file_write_args :: "pyval \<Rightarrow> bytes \<Rightarrow> pyval" where
  "file_write_args handle buffer =
     PDict [(''handle'', handle), (''buf-b64'', PBytes (b64encode buffer))]"

definition file_write ::
  "'s call_method \<Rightarrow> pyval \<Rightarrow> bytes \<Rightarrow> 's \<Rightarrow> (exn + QemuAgentRet_obj) \<times> 's" where
  "file_write cl handle buffer s = cl ''guest-file-write'' (file_write_args handle buffer) s"

text \<open>The relay client's \<open>_call\<close> as a call method: the client object is its state.\<close>

definition Libvirt_method :: "jsonlib \<Rightarrow> libvirt_client call_method" where
  "Libvirt_method L command args self = (Libvirt_call L self command args, self)"

section \<open>The host collectors\<close>

text \<open>
  \<open>HostKSM\<close> and \<open>HostMemory\<close> import \<open>parse_int\<close> and \<open>open_datafile\<close> from the module
  \<open>mom.Collectors.Collector\<close>, and use \<open>bytes.split\<close>, \<open>int(text)\<close> and the float division
  of two ints from the language. These are parameters of the model: \<open>parse_int regex src\<close>
  returns an int or \<open>None\<close> or raises, \<open>int_truediv a b\<close> is \<open>int(a / b)\<close> for \<open>b\<close> other
  than 0.
\<close>

record hostlib =
  parse_int :: "string \<Rightarrow> string \<Rightarrow> exn + int option"
  open_datafile :: "string \<Rightarrow> exn + string"
  py_split :: "string \<Rightarrow> string list"
  py_int :: "string \<Rightarrow> exn + int"
  int_truediv :: "int \<Rightarrow> int \<Rightarrow> int"

text \<open>
  What the host answers at the time of a call: whether a file opens (or the
  \<open>strerror\<close> of the IOError), what reading a file from its start gives, the output
  of the \<open>pgrep\<close>, \<open>ps\<close> and \<open>pidof\<close> processes (\<open>pidof\<close> with its return code), the text
  of \<open>/proc/<pid>/stat\<close>, and \<open>os.sysconf('SC_CLK_TCK')\<close>. A file object is kept by its
  path.
\<close>

record host =
  open_fails :: "string \<Rightarrow> string option"
  read_file :: "string \<Rightarrow> exn + string"
  pgrep_qemu :: "exn + string"
  ps_vsz :: "string list \<Rightarrow> exn + string"
  pidof_ksmd :: "int \<times> string"
  proc_stat :: "int \<Rightarrow> exn + string"
  clk_tck :: int

text \<open>Arithmetic on values that may be \<open>None\<close>: an operand \<open>None\<close> is a TypeError.\<close>

definition opt_add :: "int option \<Rightarrow> int option \<Rightarrow> exn + int option" where
  "opt_add a b =
     (case a of None \<Rightarrow> Inl TypeError
      | Some x \<Rightarrow> (case b of None \<Rightarrow> Inl TypeError | Some y \<Rightarrow> Inr (Some (x + y))))"

definition opt_sub :: "int option \<Rightarrow> int option \<Rightarrow> exn + int option" where
  "opt_sub a b =
     (case a of None \<Rightarrow> Inl TypeError
      | Some x \<Rightarrow> (case b of None \<Rightarrow> Inl TypeError | Some y \<Rightarrow> Inr (Some (x - y))))"

text \<open>\<open>sum(map(int, words))\<close> and the loop \<open>mem_tot = mem_tot + int(mem)\<close>.\<close>

fun sum_ints :: "hostlib \<Rightarrow> string list \<Rightarrow> int \<Rightarrow> exn + int" where
  "sum_ints P [] acc = Inr acc"
| "sum_ints P (w # ws) acc =
     (case py_int P w of Inl e \<Rightarrow> Inl e | Inr n \<Rightarrow> sum_ints P ws (acc + n))"

subsection \<open>HostKSM\<close>

definition sysfs_keys :: "string list" where
  "sysfs_keys = [''full_scans'', ''pages_sharing'', ''pages_unshared'', ''run'',
                 ''pages_shared'', ''pages_to_scan'', ''pages_volatile'',
                 ''sleep_millisecs'', ''merge_across_nodes'']"

record HostKSM_obj =
  files :: "(string \<times> string) list"
  interval :: int
  pid :: "int option"
  last_jiff :: int

text \<open>
  \<^verbatim>\<open>
  def open_files(self):
      self.files = {}
      for datum in self.sysfs_keys:
          name = '/sys/kernel/mm/ksm/%s' % datum
          try:
              self.files[datum] = open(name, 'r')
          except IOError as e:
              raise FatalError("HostKSM: open %s failed: %s" % (name, e.strerror))
  \<close>
\<close>

fun open_files_loop ::
  "host \<Rightarrow> string list \<Rightarrow> (string \<times> string) list \<Rightarrow> exn + (string \<times> string) list" where
  "open_files_loop H [] fs = Inr fs"
| "open_files_loop H (datum # keys) fs =
     (let name = ''/sys/kernel/mm/ksm/'' @ datum
      in case open_fails H name of
           Some strerror \<Rightarrow>
             Inl (FatalError (''HostKSM: open '' @ name @ '' failed: '' @ strerror))
         | None \<Rightarrow> open_files_loop H keys (dict_set fs datum name))"

definition open_files :: "host \<Rightarrow> exn + (string \<times> string) list" where
  "open_files H = open_files_loop H sysfs_keys []"

text \<open>
  \<^verbatim>\<open>
  def _get_ksmd_pid(self):
      proc = Popen(['pidof', 'ksmd'], stdout=PIPE)
      out = proc.communicate()[0]
      if proc.returncode == 0:
          return int(out)
      else:
          return None

  def get_ksmd_jiffies(self):
      if self.pid is None:
          return 0
      else:
          return sum(map(int, open('/proc/%s/stat' % self.pid)
                     .read().split()[13:15]))
  \<close>
\<close>

definition get_ksmd_pid :: "hostlib \<Rightarrow> host \<Rightarrow> exn + int option" where
  "get_ksmd_pid P H =
     (case pidof_ksmd H of
        (returncode, out) \<Rightarrow>
          (if returncode = 0 then
             (case py_int P out of Inl e \<Rightarrow> Inl e | Inr n \<Rightarrow> Inr (Some n))
           else Inr None))"

definition get_ksmd_jiffies :: "hostlib \<Rightarrow> host \<Rightarrow> int option \<Rightarrow> exn + int" where
  "get_ksmd_jiffies P H p =
     (case p of
        None \<Rightarrow> Inr 0
      | Some n \<Rightarrow>
          (case proc_stat H n of
             Inl e \<Rightarrow> Inl e
           | Inr txt \<Rightarrow> sum_ints P (take 2 (drop 13 (py_split P txt))) 0))"

text \<open>
  \<^verbatim>\<open>
  def __init__(self, properties):
      self.open_files()
      self.interval = properties['interval']
      self.pid = self._get_ksmd_pid()
      self.last_jiff = self.get_ksmd_jiffies()
  \<close>
\<close>

definition HostKSM_init :: "hostlib \<Rightarrow> host \<Rightarrow> (string \<rightharpoonup> int) \<Rightarrow> exn + HostKSM_obj" where
  "HostKSM_init P H properties =
     (case open_files H of
        Inl e \<Rightarrow> Inl e
      | Inr fs \<Rightarrow>
          (case properties ''interval'' of
             None \<Rightarrow> Inl (KeyError ''interval'')
           | Some iv \<Rightarrow>
               (case get_ksmd_pid P H of
                  Inl e \<Rightarrow> Inl e
                | Inr p \<Rightarrow>
                    (case get_ksmd_jiffies P H p of
                       Inl e \<Rightarrow> Inl e
                     | Inr j \<Rightarrow>
                         Inr \<lparr>files = fs, interval = iv, pid = p, last_jiff = j\<rparr>))))"

text \<open>
  \<^verbatim>\<open>
  def get_ksmd_cpu_usage(self):
      cur_jiff = self.get_ksmd_jiffies()
      interval_jiffs = (cur_jiff - self.last_jiff) % 2**32
      total_jiffs = os.sysconf('SC_CLK_TCK') * self.interval
      self.last_jiff = cur_jiff
      return int(100 * interval_jiffs / total_jiffs)
  \<close>
\<close>

definition get_ksmd_cpu_usage ::
  "hostlib \<Rightarrow> host \<Rightarrow> HostKSM_obj \<Rightarrow> (exn + int) \<times> HostKSM_obj" where
  "get_ksmd_cpu_usage P H self =
     (case get_ksmd_jiffies P H (pid self) of
        Inl e \<Rightarrow> (Inl e, self)
      | Inr cur_jiff \<Rightarrow>
          (let interval_jiffs = (cur_jiff - last_jiff self) mod 2 ^ 32;
               total_jiffs = clk_tck H * interval self;
               self' = self\<lparr>last_jiff := cur_jiff\<rparr>
           in if total_jiffs = 0 then (Inl ZeroDivisionError, self')
              else (Inr (int_truediv P (100 * interval_jiffs) total_jiffs), self')))"

text \<open>
  \<^verbatim>\<open>
  def get_shareable_mem(self):
      try:
          p1 = Popen(["pgrep", "qemu"], stdout=PIPE).communicate()[0]
      except OSError:
          raise CollectionError("HostKSM: Unable to execute pgrep")
      pids = p1.split()
      if len(pids) == 0:
          return 0
      ps_argv = ["ps", "-ovsz", "h"] + pids
      p1 = Popen(ps_argv, stdout=PIPE).communicate()[0]
      mem_tot = 0
      for mem in p1.split():
          mem_tot = mem_tot + int(mem)
      return mem_tot
  \<close>
\<close>

definition get_shareable_mem :: "hostlib \<Rightarrow> host \<Rightarrow> exn + int" where
  "get_shareable_mem P H =
     (case pgrep_qemu H of
        Inl (OSError en m) \<Rightarrow> Inl (CollectionError ''HostKSM: Unable to execute pgrep'')
      | Inl e \<Rightarrow> Inl e
      | Inr p1 \<Rightarrow>
          (let pids = py_split P p1
           in if length pids = 0 then Inr 0
              else (case ps_vsz H ([''ps'', ''-ovsz'', ''h''] @ pids) of
                      Inl e \<Rightarrow> Inl e
                    | Inr p2 \<Rightarrow> sum_ints P (py_split P p2) 0)))"

text \<open>
  \<^verbatim>\<open>
  def collect(self):
      data = {}
      for (datum, file) in self.files.items():
          file.seek(0)
          data['ksm_' + datum] = parse_int('(.*)', file.read())
      data['ksm_shareable'] = self.get_shareable_mem()
      data['ksmd_cpu_usage'] = self.get_ksmd_cpu_usage()
      return data

  def getFields(self):
      return {'ksm_' + x for x in HostKSM.sysfs_keys} | \
             {'ksm_shareable', 'ksmd_cpu_usage'}
  \<close>
\<close>

fun collect_files ::
  "hostlib \<Rightarrow> host \<Rightarrow> (string \<times> string) list \<Rightarrow> (string \<times> int option) list \<Rightarrow>
     exn + (string \<times> int option) list" where
  "collect_files P H [] dat = Inr dat"
| "collect_files P H ((datum, file) # rest) dat =
     (case read_file H file of
        Inl e \<Rightarrow> Inl e
      | Inr txt \<Rightarrow>
          (case parse_int P ''(.*)'' txt of
             Inl e \<Rightarrow> Inl e
           | Inr v \<Rightarrow> collect_files P H rest (dict_set dat (''ksm_'' @ datum) v)))"

definition HostKSM_collect ::
  "hostlib \<Rightarrow> host \<Rightarrow> HostKSM_obj \<Rightarrow> (exn + (string \<times> int option) list) \<times> HostKSM_obj" where
  "HostKSM_collect P H self =
     (case collect_files P H (files self) [] of
        Inl e \<Rightarrow> (Inl e, self)
      | Inr d1 \<Rightarrow>
          (case get_shareable_mem P H of
             Inl e \<Rightarrow> (Inl e, self)
           | Inr m \<Rightarrow>
               (let d2 = dict_set d1 ''ksm_shareable'' (Some m)
                in case get_ksmd_cpu_usage P H self of
                     (Inl e, self') \<Rightarrow> (Inl e, self')
                   | (Inr u, self') \<Rightarrow> (Inr (dict_set d2 ''ksmd_cpu_usage'' (Some u)), self'))))"

definition HostKSM_getFields :: "string set" where
  "HostKSM_getFields =
     (\<lambda>x. ''ksm_'' @ x) ` set sysfs_keys \<union> {''ksm_shareable'', ''ksmd_cpu_usage''}"

subsection \<open>HostMemory\<close>

record HostMemory_obj =
  meminfo :: string
  vmstat :: string
  swap_in_prev :: "int option"
  swap_in_cur :: "int option"
  swap_out_prev :: "int option"
  swap_out_cur :: "int option"

text \<open>
  \<^verbatim>\<open>
  def __init__(self, properties):
      self.meminfo = open_datafile("/proc/meminfo")
      self.vmstat = open_datafile("/proc/vmstat")
      self.swap_in_prev = None
      self.swap_in_cur = None
      self.swap_out_prev = None
      self.swap_out_cur = None
  \<close>
\<close>

definition HostMemory_init :: "hostlib \<Rightarrow> exn + HostMemory_obj" where
  "HostMemory_init P =
     (case open_datafile P ''/proc/meminfo'' of
        Inl e \<Rightarrow> Inl e
      | Inr f1 \<Rightarrow>
          (case open_datafile P ''/proc/vmstat'' of
             Inl e \<Rightarrow> Inl e
           | Inr f2 \<Rightarrow>
               Inr \<lparr>meminfo = f1, vmstat = f2, swap_in_prev = None, swap_in_cur = None,
                    swap_out_prev = None, swap_out_cur = None\<rparr>))"

text \<open>
  The first half of \<open>collect\<close> reads \<open>/proc/meminfo\<close>:
  \<^verbatim>\<open>
      contents = self.meminfo.read()
      avail = parse_int("^MemTotal: (.*) kB", contents)
      anon = parse_int("^AnonPages: (.*) kB", contents)
      unused = parse_int("^MemFree: (.*) kB", contents)
      buffers = parse_int("^Buffers: (.*) kB", contents)
      cached = parse_int("^Cached: (.*) kB", contents)
      free = unused + buffers + cached
      swap_total = parse_int("^SwapTotal: (.*) kB", contents)
      swap_free = parse_int("^SwapFree: (.*) kB", contents)
  \<close>
\<close>

record meminfo_vals =
  avail :: "int option"
  anon :: "int option"
  unused :: "int option"
  free :: "int option"
  swap_total :: "int option"
  swap_free :: "int option"

definition read_meminfo :: "hostlib \<Rightarrow> string \<Rightarrow> exn + meminfo_vals" where
  "read_meminfo P contents =
     (case parse_int P ''^MemTotal: (.*) kB'' contents of Inl e \<Rightarrow> Inl e | Inr av \<Rightarrow>
     (case parse_int P ''^AnonPages: (.*) kB'' contents of Inl e \<Rightarrow> Inl e | Inr an \<Rightarrow>
     (case parse_int P ''^MemFree: (.*) kB'' contents of Inl e \<Rightarrow> Inl e | Inr un \<Rightarrow>
     (case parse_int P ''^Buffers: (.*) kB'' contents of Inl e \<Rightarrow> Inl e | Inr bu \<Rightarrow>
     (case parse_int P ''^Cached: (.*) kB'' contents of Inl e \<Rightarrow> Inl e | Inr ca \<Rightarrow>
     (case opt_add un bu of Inl e \<Rightarrow> Inl e | Inr ub \<Rightarrow>
     (case opt_add ub ca of Inl e \<Rightarrow> Inl e | Inr fr \<Rightarrow>
     (case parse_int P ''^SwapTotal: (.*) kB'' contents of Inl e \<Rightarrow> Inl e | Inr st \<Rightarrow>
     (case parse_int P ''^SwapFree: (.*) kB'' contents of Inl e \<Rightarrow> Inl e | Inr sf \<Rightarrow>
        Inr \<lparr>avail = av, anon = an, unused = un, free = fr,
             swap_total = st, swap_free = sf\<rparr>)))))))))"

text \<open>
  The second half reads \<open>/proc/vmstat\<close>, updates the object (\<open>vmstat_update\<close>) and
  builds the result (\<open>build_data\<close>):
  \<^verbatim>\<open>
      contents = self.vmstat.read()
      self.swap_in_prev = self.swap_in_cur
      self.swap_out_prev = self.swap_out_cur
      self.swap_in_cur = parse_int("^pswpin (.*)", contents)
      self.swap_out_cur = parse_int("^pswpout (.*)", contents)
      if self.swap_in_prev is None:
          self.swap_in_prev = self.swap_in_cur
      if self.swap_out_prev is None:
          self.swap_out_prev = self.swap_out_cur
      swap_in = self.swap_in_cur - self.swap_in_prev
      swap_out = self.swap_out_cur - self.swap_out_prev

      data = { 'mem_available': avail, 'mem_unused': unused, \
               'mem_free': free, 'swap_in': swap_in, 'swap_out': swap_out, \
               'anon_pages': anon, 'swap_total': swap_total, \
               'swap_usage': swap_total - swap_free }
      return data
  \<close>
\<close>

definition vmstat_update :: "HostMemory_obj \<Rightarrow> int option \<Rightarrow> int option \<Rightarrow> HostMemory_obj" where
  "vmstat_update s1 si so =
     (let s3 = s1\<lparr>swap_in_cur := si, swap_out_cur := so\<rparr>;
          s4 = (if swap_in_prev s3 = None then s3\<lparr>swap_in_prev := swap_in_cur s3\<rparr> else s3)
      in (if swap_out_prev s4 = None then s4\<lparr>swap_out_prev := swap_out_cur s4\<rparr> else s4))"

definition build_data ::
  "meminfo_vals \<Rightarrow> HostMemory_obj \<Rightarrow> (exn + (string \<times> int option) list) \<times> HostMemory_obj" where
  "build_data mv s5 =
     (case opt_sub (swap_in_cur s5) (swap_in_prev s5) of
        Inl e \<Rightarrow> (Inl e, s5)
      | Inr swap_in \<Rightarrow>
         (case opt_sub (swap_out_cur s5) (swap_out_prev s5) of
            Inl e \<Rightarrow> (Inl e, s5)
          | Inr swap_out \<Rightarrow>
             (case opt_sub (swap_total mv) (swap_free mv) of
                Inl e \<Rightarrow> (Inl e, s5)
              | Inr swap_usage \<Rightarrow>
                 (Inr [(''mem_available'', avail mv), (''mem_unused'', unused mv),
                       (''mem_free'', free mv), (''swap_in'', swap_in),
                       (''swap_out'', swap_out), (''anon_pages'', anon mv),
                       (''swap_total'', swap_total mv), (''swap_usage'', swap_usage)],
                  s5))))"

definition HostMemory_collect ::
  "hostlib \<Rightarrow> host \<Rightarrow> HostMemory_obj \<Rightarrow>
     (exn + (string \<times> int option) list) \<times> HostMemory_obj" where
  "HostMemory_collect P H self =
     (case read_file H (meminfo self) of
        Inl e \<Rightarrow> (Inl e, self)
      | Inr contents \<Rightarrow>
         (case read_meminfo P contents of
            Inl e \<Rightarrow> (Inl e, self)
          | Inr mv \<Rightarrow>
             (case read_file H (vmstat self) of
                Inl e \<Rightarrow> (Inl e, self)
              | Inr contents2 \<Rightarrow>
                 (let s1 = self\<lparr>swap_in_prev := swap_in_cur self,
                                swap_out_prev := swap_out_cur self\<rparr>
                  in (case parse_int P ''^pswpin (.*)'' contents2 of
                        Inl e \<Rightarrow> (Inl e, s1)
                      | Inr si \<Rightarrow>
                         (case parse_int P ''^pswpout (.*)'' contents2 of
                            Inl e \<Rightarrow> (Inl e, s1\<lparr>swap_in_cur := si\<rparr>)
                          | Inr so \<Rightarrow> build_data mv (vmstat_update s1 si so)))))))"

definition HostMemory_getFields :: "string set" where
  "HostMemory_getFields =
     {''mem_available'', ''mem_unused'', ''mem_free'', ''swap_in'', ''swap_out'',
      ''anon_pages'', ''swap_total'', ''swap_usage''}"

section \<open>Response lines on the channel\<close>

text \<open>
  The handshake reads newline-delimited lines. \<open>feed ls\<close> is the script of a socket
  that has the lines \<open>ls\<close> buffered, each followed by its newline; \<open>parses L b obj\<close>
  says that the bytes \<open>b\<close> decode and parse to \<open>obj\<close>. A parsed object is a stale line
  for the token \<open>seq\<close> when it has no \<open>return\<close> value or one that does not compare
  equal to \<open>seq\<close> (a value of another type never does); it is the sync reply when
  its \<open>return\<close> value equals \<open>seq\<close>.
\<close>

definition feed :: "bytes list \<Rightarrow> recv_ev list" where
  "feed ls = concat (map (\<lambda>l. map RecvByte (l @ newline)) ls)"

definition parses :: "jsonlib \<Rightarrow> bytes \<Rightarrow> pyval \<Rightarrow> bool" where
  "parses L b obj =
     (case decode_utf8 L b of Inl e \<Rightarrow> False | Inr t \<Rightarrow> loads L t = Inr obj)"

definition stale_line :: "int \<Rightarrow> pyval \<Rightarrow> bool" where
  "stale_line seq obj =
     (case obj of
        PDict kvs \<Rightarrow>
          (case map_of kvs ''return'' of None \<Rightarrow> True | Some v \<Rightarrow> \<not> py_eq_int v seq)
      | _ \<Rightarrow> False)"

definition sync_reply :: "int \<Rightarrow> pyval \<Rightarrow> bool" where
  "sync_reply seq obj =
     (case obj of
        PDict kvs \<Rightarrow>
          (case map_of kvs ''return'' of None \<Rightarrow> False | Some v \<Rightarrow> py_eq_int v seq)
      | _ \<Rightarrow> False)"



section \<open>Concrete instances\<close>

text \<open>
  Instances of the library parameters and of the environment, on which the model
  runs to a value. \<open>demo_loads\<close> agrees with \<open>json.loads\<close> on the response texts
  listed and on a \<open>return\<close> of a string of \<open>a\<close>s (trailing newlines are white space), and
  rejects every other text;
  \<open>demo_dumps\<close> agrees with \<open>json.dumps\<close> on the requests listed.
\<close>

definition strip_newline :: "string \<Rightarrow> string" where
  "strip_newline s = (if s \<noteq> [] \<and> last s = CHR 0x0A then butlast s else s)"

definition long_return :: "string \<Rightarrow> bool" where
  \<open>long_return s \<longleftrightarrow>
     14 \<le> length s \<and> take 12 s = ''{"return": "'' \<and> drop (length s - 2) s = ''"}'' \<and>
     list_all (\<lambda>ch. ch = CHR ''a'') (take (length s - 14) (drop 12 s))\<close>

definition demo_table :: "string \<Rightarrow> exn + pyval" where
  \<open>demo_table s =
     (if s = ''{"return": {}}'' then Inr (PDict [(''return'', PDict [])])
      else if s = ''{"return": null}'' then Inr (PDict [(''return'', PNone)])
      else if s = ''{"return": 3}'' then Inr (PDict [(''return'', PInt 3)])
      else if s = ''{"return": 5}'' then Inr (PDict [(''return'', PInt 5)])
      else if s = ''{"return": "5"}'' then Inr (PDict [(''return'', PStr ''5'')])
      else if s = ''{"error": {"class": "CommandNotFound", "data": {}}}''
        then Inr (PDict [(''error'', PDict [(''class'', PStr ''CommandNotFound''),
                                            (''data'', PDict [])])])
      else if s = ''{"return": {"count": 5, "buf-b64": "aGVsbG8=", "eof": false}}''
        then Inr (PDict [(''return'', PDict [(''count'', PInt 5),
                                             (''buf-b64'', PStr ''aGVsbG8=''),
                                             (''eof'', PBool False)])])
      else if long_return s
        then Inr (PDict [(''return'', PStr (take (length s - 14) (drop 12 s)))])
      else Inl ValueError)\<close>

definition demo_loads :: "string \<Rightarrow> exn + pyval" where
  "demo_loads s = demo_table (strip_newline s)"

definition demo_dumps :: "pyval \<Rightarrow> string" where
  \<open>demo_dumps v =
     (if v = sync_request 5 then ''{"execute": "guest-sync", "arguments": {"id": 5}}''
      else if v = make_request ''guest-ping'' (PDict [])
        then ''{"execute": "guest-ping", "arguments": {}}''
      else if v = make_request ''guest-file-read'' (PDict [(''handle'', PInt 7), (''count'', PInt 5)])
        then ''{"execute": "guest-file-read", "arguments": {"handle": 7, "count": 5}}''
      else ''null'')\<close>

definition demo_lib :: jsonlib where
  "demo_lib =
     \<lparr>loads = demo_loads, dumps_text = demo_dumps,
      encode_utf8 = (\<lambda>s. s), decode_utf8 = (\<lambda>b. Inr b)\<rparr>"

definition demo_sock :: "send_ev list \<Rightarrow> recv_ev list \<Rightarrow> sockobj" where
  "demo_sock ss rs =
     \<lparr>send_script = ss, recv_script = rs, shutdown_fails = False, wire = [], closed = False\<rparr>"

text \<open>A client connected through socket 0, and a client with no connection.\<close>

definition demo_client :: "sockobj \<Rightarrow> client" where
  "demo_client s =
     \<lparr>where_path = ''/run/guest.agent'', sock = Some 0, heap = (\<lambda>i. blank_sock)(0 := s),
      nsocks = 1, net = [], now = 5\<rparr>"


definition long_line :: bytes where
  \<open>long_line = ''{"return": "'' @ replicate 4090 (CHR ''a'') @ ''"}''\<close>

definition demo_iface :: iface where
  \<open>demo_iface = \<lparr>getattr_qemuAgentCommand = Inr (\<lambda>u json_str. Inr ''{"return": {}}'')\<rparr>\<close>

definition demo_hostlib :: hostlib where
  "demo_hostlib =
     \<lparr>parse_int = (\<lambda>regex src. if src = [] then Inr None else Inr (Some (int (length src)))),
      open_datafile = (\<lambda>path. Inr path),
      py_split = (\<lambda>s. if s = [] then [] else [s]),
      py_int = (\<lambda>s. if s = ''42'' then Inr 42 else Inl ValueError),
      int_truediv = (\<lambda>a b. a div b)\<rparr>"

definition demo_host :: host where
  "demo_host =
     \<lparr>open_fails = (\<lambda>path. None),
      read_file = (\<lambda>path. Inr ''42''),
      pgrep_qemu = Inr ''42'',
      ps_vsz = (\<lambda>argv. Inr ''42''),
      pidof_ksmd = (1, []),
      proc_stat = (\<lambda>p. Inr []),
      clk_tck = 100\<rparr>"

definition demo_ksm :: HostKSM_obj where
  "demo_ksm =
     \<lparr>files = map (\<lambda>k. (k, ''/sys/kernel/mm/ksm/'' @ k)) sysfs_keys,
      interval = 10, pid = None, last_jiff = 0\<rparr>"

definition demo_mem :: HostMemory_obj where
  "demo_mem =
     \<lparr>meminfo = ''/proc/meminfo'', vmstat = ''/proc/vmstat'', swap_in_prev = None,
      swap_in_cur = None, swap_out_prev = None, swap_out_cur = None\<rparr>"

section \<open>Dictionaries\<close>

lemma dict_set_map_fst:
  "map fst (dict_set kvs k v) =
     (if k \<in> set (map fst kvs) then map fst kvs else map fst kvs @ [k])"
  by (induction kvs) force+

lemma dict_set_keys: "fst ` set (dict_set kvs k v) = insert k (fst ` set kvs)"
proof -
  have "set (map fst (dict_set kvs k v)) = insert k (set (map fst kvs))"
    by (auto simp: dict_set_map_fst)
  then show ?thesis by simp
qed

lemma dict_set_distinct:
  "distinct (map fst kvs) \<Longrightarrow> distinct (map fst (dict_set kvs k v))"
  by (auto simp: dict_set_map_fst)

section \<open>The collectors populate exactly their fields\<close>

lemma open_files_loop_keys:
  "open_files_loop H keys fs = Inr fs' \<Longrightarrow>
     set (map fst fs') = set (map fst fs) \<union> set keys \<and>
     (distinct (map fst fs) \<longrightarrow> distinct (map fst fs'))"
proof (induction keys arbitrary: fs)
  case Nil
  then show ?case by simp
next
  case (Cons datum keys)
  from Cons.prems have
    step: "open_files_loop H keys (dict_set fs datum (''/sys/kernel/mm/ksm/'' @ datum)) = Inr fs'"
    by (simp add: Let_def split: option.splits)
  from Cons.IH[OF step] show ?case
    by (auto simp: dict_set_keys dict_set_distinct)
qed

lemma collect_files_keys:
  "collect_files P H fs dat = Inr dat' \<Longrightarrow>
     set (map fst dat') = set (map fst dat) \<union> (\<lambda>x. ''ksm_'' @ x) ` set (map fst fs) \<and>
     (distinct (map fst dat) \<longrightarrow> distinct (map fst dat'))"
proof (induction fs arbitrary: dat)
  case Nil
  then show ?case by simp
next
  case (Cons f fs)
  obtain datum fl where f: "f = (datum, fl)" by (cases f)
  from Cons.prems f obtain v where
    step: "collect_files P H fs (dict_set dat (''ksm_'' @ datum) v) = Inr dat'"
    by (auto split: sum.splits)
  from Cons.IH[OF step] f show ?case
    by (auto simp: dict_set_keys dict_set_distinct)
qed

lemma HostKSM_init_files:
  assumes "HostKSM_init P H props = Inr self"
  shows "set (map fst (files self)) = set sysfs_keys"
proof -
  from assms have "open_files_loop H sysfs_keys [] = Inr (files self)"
    by (auto simp: HostKSM_init_def open_files_def split: sum.splits option.splits)
  from open_files_loop_keys[OF this] show ?thesis by simp
qed

lemma HostKSM_collect_keys:
  assumes "set (map fst (files self)) = set sysfs_keys"
    and "HostKSM_collect P H self = (Inr dat, self')"
  shows "set (map fst dat) = HostKSM_getFields \<and> distinct (map fst dat)"
proof -
  from assms(2) obtain d1 m u where
    d1: "collect_files P H (files self) [] = Inr d1"
    and dat: "dat = dict_set (dict_set d1 ''ksm_shareable'' (Some m)) ''ksmd_cpu_usage'' (Some u)"
    by (auto simp: HostKSM_collect_def Let_def split: sum.splits prod.splits)
  from collect_files_keys[OF d1] assms(1)
  have "set (map fst d1) = (\<lambda>x. ''ksm_'' @ x) ` set sysfs_keys" and "distinct (map fst d1)"
    by auto
  with dat show ?thesis
    by (auto simp: HostKSM_getFields_def dict_set_keys dict_set_distinct)
qed

lemma HostMemory_collect_keys:
  assumes "HostMemory_collect P H m = (Inr dat, m')"
  shows "set (map fst dat) = HostMemory_getFields \<and> distinct (map fst dat)"
proof -
  from assms obtain mv s5 where "build_data mv s5 = (Inr dat, m')"
    by (auto simp: HostMemory_collect_def Let_def split: sum.splits)
  then obtain a b c where
    "dat = [(''mem_available'', avail mv), (''mem_unused'', unused mv),
            (''mem_free'', free mv), (''swap_in'', a), (''swap_out'', b),
            (''anon_pages'', anon mv), (''swap_total'', swap_total mv), (''swap_usage'', c)]"
    by (auto simp: build_data_def split: sum.splits)
  then show ?thesis
    by (simp add: HostMemory_getFields_def insert_commute)
qed

text \<open>
  Claim C10. For both collectors, a \<open>collect()\<close> that returns gives a mapping whose
  keys are exactly the names of \<open>getFields()\<close>: for \<open>HostKSM\<close> on every object that its
  constructor has built (whatever the host answers afterwards), for \<open>HostMemory\<close> on
  every object. The keys of the result are distinct, as in a dict.
\<close>

theorem collect_keys_are_getFields:
  "(HostKSM_init P H0 props = Inr self \<longrightarrow> HostKSM_collect P H self = (Inr dat, self') \<longrightarrow>
      set (map fst dat) = HostKSM_getFields \<and> distinct (map fst dat)) \<and>
   (HostMemory_collect P H mem = (Inr dat2, mem') \<longrightarrow>
      set (map fst dat2) = HostMemory_getFields \<and> distinct (map fst dat2))"
proof (intro conjI impI)
  assume init: "HostKSM_init P H0 props = Inr self"
    and coll: "HostKSM_collect P H self = (Inr dat, self')"
  from HostKSM_collect_keys[OF HostKSM_init_files[OF init] coll]
  show "set (map fst dat) = HostKSM_getFields" and "distinct (map fst dat)" by simp_all
next
  assume coll: "HostMemory_collect P H mem = (Inr dat2, mem')"
  from HostMemory_collect_keys[OF coll]
  show "set (map fst dat2) = HostMemory_getFields" and "distinct (map fst dat2)" by simp_all
qed

theorem collect_keys_are_getFields_witness:
  "HostKSM_init demo_hostlib demo_host [''interval'' \<mapsto> 10] = Inr demo_ksm \<and>
   HostKSM_collect demo_hostlib demo_host demo_ksm =
     (Inr [(''ksm_full_scans'', Some 2), (''ksm_pages_sharing'', Some 2),
           (''ksm_pages_unshared'', Some 2), (''ksm_run'', Some 2),
           (''ksm_pages_shared'', Some 2), (''ksm_pages_to_scan'', Some 2),
           (''ksm_pages_volatile'', Some 2), (''ksm_sleep_millisecs'', Some 2),
           (''ksm_merge_across_nodes'', Some 2), (''ksm_shareable'', Some 42),
           (''ksmd_cpu_usage'', Some 0)], demo_ksm) \<and>
   {''ksm_full_scans'', ''ksm_pages_sharing'', ''ksm_pages_unshared'', ''ksm_run'',
    ''ksm_pages_shared'', ''ksm_pages_to_scan'', ''ksm_pages_volatile'',
    ''ksm_sleep_millisecs'', ''ksm_merge_across_nodes'', ''ksm_shareable'',
    ''ksmd_cpu_usage''} = HostKSM_getFields \<and>
   HostMemory_collect demo_hostlib demo_host demo_mem =
     (Inr [(''mem_available'', Some 2), (''mem_unused'', Some 2), (''mem_free'', Some 6),
           (''swap_in'', Some 0), (''swap_out'', Some 0), (''anon_pages'', Some 2),
           (''swap_total'', Some 2), (''swap_usage'', Some 0)],
      demo_mem\<lparr>swap_in_prev := Some 2, swap_in_cur := Some 2,
               swap_out_prev := Some 2, swap_out_cur := Some 2\<rparr>) \<and>
   {''mem_available'', ''mem_unused'', ''mem_free'', ''swap_in'', ''swap_out'',
    ''anon_pages'', ''swap_total'', ''swap_usage''} = HostMemory_getFields"
proof -
  have w1: "HostKSM_init demo_hostlib demo_host [''interval'' \<mapsto> 10] = Inr demo_ksm"
    by (simp add: HostKSM_init_def open_files_def sysfs_keys_def demo_host_def
          demo_hostlib_def demo_ksm_def get_ksmd_pid_def get_ksmd_jiffies_def)
  have w2: "HostKSM_collect demo_hostlib demo_host demo_ksm =
     (Inr [(''ksm_full_scans'', Some 2), (''ksm_pages_sharing'', Some 2),
           (''ksm_pages_unshared'', Some 2), (''ksm_run'', Some 2),
           (''ksm_pages_shared'', Some 2), (''ksm_pages_to_scan'', Some 2),
           (''ksm_pages_volatile'', Some 2), (''ksm_sleep_millisecs'', Some 2),
           (''ksm_merge_across_nodes'', Some 2), (''ksm_shareable'', Some 42),
           (''ksmd_cpu_usage'', Some 0)], demo_ksm)"
    by (simp add: HostKSM_collect_def sysfs_keys_def demo_host_def demo_hostlib_def
          demo_ksm_def get_shareable_mem_def get_ksmd_cpu_usage_def get_ksmd_jiffies_def)
  have w3: "HostMemory_collect demo_hostlib demo_host demo_mem =
     (Inr [(''mem_available'', Some 2), (''mem_unused'', Some 2), (''mem_free'', Some 6),
           (''swap_in'', Some 0), (''swap_out'', Some 0), (''anon_pages'', Some 2),
           (''swap_total'', Some 2), (''swap_usage'', Some 0)],
      demo_mem\<lparr>swap_in_prev := Some 2, swap_in_cur := Some 2,
               swap_out_prev := Some 2, swap_out_cur := Some 2\<rparr>)"
    by (simp add: HostMemory_collect_def demo_host_def demo_hostlib_def demo_mem_def
          read_meminfo_def opt_add_def opt_sub_def build_data_def vmstat_update_def)
  from collect_keys_are_getFields[THEN conjunct1, rule_format, OF w1 w2]
       collect_keys_are_getFields[THEN conjunct2, rule_format, OF w3]
  show ?thesis using w1 w2 w3 by (simp add: insert_commute)
qed

section \<open>The fields of a response\<close>

lemma py_in_dict: "py_in k (PDict kvs) = Inr (map_of kvs k \<noteq> None)"
  by (simp add: map_of_eq_None_iff)

text \<open>
  Claim C6, as it stands, fails: the text \<open>{"return": null}\<close> is well-formed and its
  Response has neither field populated.
\<close>

theorem QemuAgentRet_neither_counterexample:
  \<open>loads demo_lib ''{"return": null}'' = Inr (PDict [(''return'', PNone)]) \<and>
   QemuAgentRet demo_lib ''{"return": null}'' = Inr \<lparr>error = PNone, data = PNone\<rparr>\<close>
  by (simp add: QemuAgentRet_def demo_lib_def demo_loads_def demo_table_def strip_newline_def)

text \<open>
  Claim C6, amended. The two fields are never both populated. For a text that
  parses to an object: with an \<open>error\<close> key the Response carries that value as its
  error and no data; without it and with a \<open>return\<close> key the Response carries that
  value as its data and no error; with neither key a KeyError is raised. So exactly
  one field is populated whenever the value under the key that was found is not
  null.
\<close>

theorem QemuAgentRet_fields:
  "(QemuAgentRet L txt = Inr r \<longrightarrow> error r = PNone \<or> data r = PNone) \<and>
   (loads L txt = Inr (PDict kvs) \<longrightarrow>
      QemuAgentRet L txt =
        (case map_of kvs ''error'' of
           Some e \<Rightarrow> Inr \<lparr>error = e, data = PNone\<rparr>
         | None \<Rightarrow>
            (case map_of kvs ''return'' of
               Some v \<Rightarrow> Inr \<lparr>error = PNone, data = v\<rparr>
             | None \<Rightarrow> Inl (KeyError ''return''))))"
proof (intro conjI impI)
  assume "QemuAgentRet L txt = Inr r"
  then show "error r = PNone \<or> data r = PNone"
    by (auto simp: QemuAgentRet_def split: sum.splits bool.splits)
next
  assume "loads L txt = Inr (PDict kvs)"
  then show "QemuAgentRet L txt =
        (case map_of kvs ''error'' of
           Some e \<Rightarrow> Inr \<lparr>error = e, data = PNone\<rparr>
         | None \<Rightarrow>
            (case map_of kvs ''return'' of
               Some v \<Rightarrow> Inr \<lparr>error = PNone, data = v\<rparr>
             | None \<Rightarrow> Inl (KeyError ''return'')))"
    by (auto simp: QemuAgentRet_def py_in_dict simp del: py_in.simps split: option.splits)
qed

theorem QemuAgentRet_fields_witness:
  \<open>loads demo_lib ''{"return": {}}'' = Inr (PDict [(''return'', PDict [])]) \<and>
   QemuAgentRet demo_lib ''{"return": {}}'' = Inr \<lparr>error = PNone, data = PDict []\<rparr> \<and>
   (error \<lparr>error = PNone, data = PDict []\<rparr> = PNone \<or>
    data \<lparr>error = PNone, data = PDict []\<rparr> = PNone)\<close>
proof -
  have p: \<open>loads demo_lib ''{"return": {}}'' = Inr (PDict [(''return'', PDict [])])\<close>
    by (simp add: demo_lib_def demo_loads_def demo_table_def strip_newline_def)
  from QemuAgentRet_fields[THEN conjunct2, rule_format, OF p]
  have q: \<open>QemuAgentRet demo_lib ''{"return": {}}'' = Inr \<lparr>error = PNone, data = PDict []\<rparr>\<close>
    by simp
  from QemuAgentRet_fields[THEN conjunct1, rule_format, OF q] p q
  show ?thesis by simp
qed

section \<open>Facts about the socket operations\<close>

lemma put_sock_same [simp]: "heap (put_sock i s c) i = s"
  by (simp add: put_sock_def)

lemma put_sock_other [simp]: "j \<noteq> i \<Longrightarrow> heap (put_sock i s c) j = heap c j"
  by (simp add: put_sock_def)

lemma put_sock_fields [simp]:
  "sock (put_sock i s c) = sock c" "net (put_sock i s c) = net c"
  "nsocks (put_sock i s c) = nsocks c" "now (put_sock i s c) = now c"
  "where_path (put_sock i s c) = where_path c"
  by (simp_all add: put_sock_def)

lemma put_sock_put_sock [simp]: "put_sock i s (put_sock i s' c) = put_sock i s c"
  by (simp add: put_sock_def)

lemma put_sock_triv [simp]: "put_sock i (heap c i) c = c"
  by (simp add: put_sock_def)

lemma send_prim_room:
  "\<not> closed s \<Longrightarrow> send_script s = SendRoom n # evs \<Longrightarrow>
     send_prim buf s =
       (Done (min n (length buf)), s\<lparr>send_script := evs, wire := wire s @ take n buf\<rparr>)"
  by (simp add: send_prim_def)

lemma send_loop_done:
  "\<not> sent < length msg \<Longrightarrow> sock_send_loop i msg sent c = (Inr (), c)"
  by (simp add: sock_send_loop.simps)

lemma send_loop_room:
  assumes "sent < length msg" "\<not> closed (heap c i)"
    and "send_script (heap c i) = SendRoom n # evs" "0 < n"
  shows "sock_send_loop i msg sent c =
     sock_send_loop i msg (sent + min n (length msg - sent))
       (put_sock i ((heap c i)\<lparr>send_script := evs,
                              wire := wire (heap c i) @ take n (drop sent msg)\<rparr>) c)"
proof -
  from assms have "send_prim (drop sent msg) (heap c i) =
      (Done (min n (length msg - sent)),
       (heap c i)\<lparr>send_script := evs, wire := wire (heap c i) @ take n (drop sent msg)\<rparr>)"
    by (simp add: send_prim_room)
  moreover from assms have "min n (length msg - sent) \<noteq> 0" by simp
  ultimately show ?thesis using assms(1)
    by (subst sock_send_loop.simps) (simp del: min_less_iff_conj)
qed

lemma take_drop_step:
  "sent \<le> length msg \<Longrightarrow>
     take n (drop sent msg) @ drop (sent + min n (length msg - sent)) msg = drop sent msg"
proof (cases "n \<le> length msg - sent")
  case True
  then have "drop (sent + min n (length msg - sent)) msg = drop n (drop sent msg)"
    by (simp add: min_def add.commute)
  then show ?thesis by (simp only: append_take_drop_id)
next
  case False
  assume "sent \<le> length msg"
  with False show ?thesis by (simp add: min_def)
qed

lemma send_loop_ok:
  assumes "\<not> closed (heap c i)" "send_script (heap c i) = map SendRoom ns @ rest"
    "\<forall>n\<in>set ns. 0 < n" "sent \<le> length msg" "length msg - sent \<le> sum_list ns"
  shows "\<exists>s'. sock_send_loop i msg sent c = (Inr (), put_sock i s' c) \<and>
           wire s' = wire (heap c i) @ drop sent msg \<and>
           recv_script s' = recv_script (heap c i) \<and>
           shutdown_fails s' = shutdown_fails (heap c i) \<and> \<not> closed s' \<and>
           (\<exists>k. send_script s' = drop k (send_script (heap c i)))"
  using assms
proof (induction ns arbitrary: c sent)
  case Nil
  then have "sock_send_loop i msg sent c = (Inr (), c)"
    by (simp add: send_loop_done)
  with Nil show ?case
    by (intro exI[of _ "heap c i"]) (auto intro: exI[of _ 0])
next
  case (Cons n ns)
  show ?case
  proof (cases "sent < length msg")
    case False
    then have "sock_send_loop i msg sent c = (Inr (), c)"
      by (simp add: send_loop_done)
    with False Cons.prems show ?thesis
      by (intro exI[of _ "heap c i"]) (auto intro: exI[of _ 0])
  next
    case True
    let ?s = "(heap c i)\<lparr>send_script := map SendRoom ns @ rest,
                          wire := wire (heap c i) @ take n (drop sent msg)\<rparr>"
    let ?c = "put_sock i ?s c"
    let ?sent = "sent + min n (length msg - sent)"
    from Cons.prems True have step: "sock_send_loop i msg sent c = sock_send_loop i msg ?sent ?c"
      by (intro send_loop_room) auto
    have "\<exists>s'. sock_send_loop i msg ?sent ?c = (Inr (), put_sock i s' ?c) \<and>
           wire s' = wire (heap ?c i) @ drop ?sent msg \<and>
           recv_script s' = recv_script (heap ?c i) \<and>
           shutdown_fails s' = shutdown_fails (heap ?c i) \<and> \<not> closed s' \<and>
           (\<exists>k. send_script s' = drop k (send_script (heap ?c i)))"
      using Cons.prems True by (intro Cons.IH) auto
    then obtain s' k where
      r: "sock_send_loop i msg ?sent ?c = (Inr (), put_sock i s' ?c)"
      and w: "wire s' = wire (heap ?c i) @ drop ?sent msg"
      and o: "recv_script s' = recv_script (heap ?c i)"
         "shutdown_fails s' = shutdown_fails (heap ?c i)" "\<not> closed s'"
      and k: "send_script s' = drop k (send_script (heap ?c i))"
      by blast
    have "take n (drop sent msg) @ drop ?sent msg = drop sent msg"
      using Cons.prems by (intro take_drop_step) simp
    with w have "wire s' = wire (heap c i) @ drop sent msg" by simp
    moreover from k Cons.prems(2) have "send_script s' = drop (Suc k) (send_script (heap c i))"
      by simp
    ultimately show ?thesis using step r o by auto
  qed
qed

lemma teardown_Some:
  "sock c = Some i \<Longrightarrow>
     teardown en m c =
       (Inl (ProtocolError en m), (put_sock i (close_prim (heap c i)) c)\<lparr>sock := None\<rparr>)"
  by (simp add: teardown_def sock_close_def)

lemma close_prim_fields [simp]:
  "wire (close_prim s) = wire s" "send_script (close_prim s) = send_script s"
  "recv_script (close_prim s) = recv_script s" "shutdown_fails (close_prim s) = shutdown_fails s"
  by (simp_all add: close_prim_def)




lemma send_loop_zero:
  assumes "\<not> closed (heap c i)" "send_script (heap c i) = map SendRoom ns @ SendRoom 0 # rest"
    "\<forall>n\<in>set ns. 0 < n" "sum_list ns < length msg - sent" "sock c = Some i"
  shows "sock_send_loop i msg sent c =
     (Inl (ProtocolError (- 1) ''Unable to send on socket''),
      (put_sock i (close_prim ((heap c i)\<lparr>send_script := rest,
          wire := wire (heap c i) @ take (sum_list ns) (drop sent msg)\<rparr>)) c)\<lparr>sock := None\<rparr>)"
  using assms
proof (induction ns arbitrary: c sent)
  case Nil
  then have lt: "sent < length msg" by simp
  from Nil have "send_prim (drop sent msg) (heap c i) = (Done 0, (heap c i)\<lparr>send_script := rest\<rparr>)"
    by (simp add: send_prim_def)
  with lt Nil.prems(5) show ?case
    by (subst sock_send_loop.simps) (simp add: teardown_Some)
next
  case (Cons n ns)
  let ?s = "(heap c i)\<lparr>send_script := map SendRoom ns @ SendRoom 0 # rest,
                        wire := wire (heap c i) @ take n (drop sent msg)\<rparr>"
  let ?c = "put_sock i ?s c"
  from Cons.prems have lt: "sent < length msg" and n: "0 < n" "n \<le> length msg - sent"
    by auto
  then have m: "min n (length msg - sent) = n" by simp
  from Cons.prems lt n have step: "sock_send_loop i msg sent c = sock_send_loop i msg (sent + n) ?c"
    using send_loop_room[of sent msg c i n "map SendRoom ns @ SendRoom 0 # rest"] m by simp
  have "sock_send_loop i msg (sent + n) ?c =
     (Inl (ProtocolError (- 1) ''Unable to send on socket''),
      (put_sock i (close_prim ((heap ?c i)\<lparr>send_script := rest,
          wire := wire (heap ?c i) @ take (sum_list ns) (drop (sent + n) msg)\<rparr>)) ?c)\<lparr>sock := None\<rparr>)"
    using Cons.prems by (intro Cons.IH) auto
  moreover have "take n (drop sent msg) @ take (sum_list ns) (drop (sent + n) msg) =
      take (sum_list (n # ns)) (drop sent msg)"
    by (simp add: take_add add.commute)
  ultimately show ?case using step by simp
qed



lemma recv_loop_byte:
  assumes "\<not> 4096 < length d" "\<not> closed (heap c i)" "recv_script (heap c i) = RecvByte ch # evs"
  shows "sock_recv_until_loop i token d c =
     (if py_tail (d @ [ch]) (length token) = token
      then (Inr (Some (d @ [ch])), put_sock i ((heap c i)\<lparr>recv_script := evs\<rparr>) c)
      else sock_recv_until_loop i token (d @ [ch]) (put_sock i ((heap c i)\<lparr>recv_script := evs\<rparr>) c))"
  using assms by (subst sock_recv_until_loop.simps) (simp add: recv_prim_def)

lemma py_tail_newline [simp]: "py_tail (d @ [ch]) (length newline) = [ch]"
  by (simp add: py_tail_def newline_def)

lemma py_tail_one [simp]: "py_tail (d @ [ch]) (Suc 0) = [ch]"
  by (simp add: py_tail_def)

lemma put_sock_script_triv:
  "recv_script (heap c i) = evs \<Longrightarrow> put_sock i ((heap c i)\<lparr>recv_script := evs\<rparr>) c = c"
  by (auto simp: put_sock_def)

lemma recv_line:
  assumes "\<not> closed (heap c i)"
    "recv_script (heap c i) = map RecvByte (line @ newline) @ rest"
    "CHR 0x0A \<notin> set line" "length d + length line \<le> 4096"
  shows "sock_recv_until_loop i newline d c =
     (Inr (Some (d @ line @ newline)), put_sock i ((heap c i)\<lparr>recv_script := rest\<rparr>) c)"
  using assms
proof (induction line arbitrary: d c)
  case Nil
  then show ?case
    by (subst recv_loop_byte[where ch = "CHR 0x0A" and evs = rest]) (simp_all add: newline_def)
next
  case (Cons b line)
  let ?c = "put_sock i ((heap c i)\<lparr>recv_script := map RecvByte (line @ newline) @ rest\<rparr>) c"
  from Cons.prems have
    "sock_recv_until_loop i newline d c = sock_recv_until_loop i newline (d @ [b]) ?c"
    by (subst recv_loop_byte[where ch = b and evs = "map RecvByte (line @ newline) @ rest"])
       (auto simp: newline_def)
  also have "\<dots> = (Inr (Some ((d @ [b]) @ line @ newline)),
                   put_sock i ((heap ?c i)\<lparr>recv_script := rest\<rparr>) ?c)"
    using Cons.prems by (intro Cons.IH) auto
  finally show ?case by simp
qed

lemma recv_too_long:
  assumes "\<not> closed (heap c i)" "recv_script (heap c i) = map RecvByte bs @ rest"
    "length d + length bs = 4097"
    "\<forall>k. 0 < k \<and> k \<le> length bs \<longrightarrow> py_tail (d @ take k bs) (length token) \<noteq> token"
  shows "sock_recv_until_loop i token d c =
     (Inr None, put_sock i ((heap c i)\<lparr>recv_script := rest\<rparr>) c)"
  using assms
proof (induction bs arbitrary: d c)
  case Nil
  then have "put_sock i ((heap c i)\<lparr>recv_script := rest\<rparr>) c = c"
    by (intro put_sock_script_triv) simp
  with Nil show ?case
    by (subst sock_recv_until_loop.simps) simp
next
  case (Cons b bs)
  let ?c = "put_sock i ((heap c i)\<lparr>recv_script := map RecvByte bs @ rest\<rparr>) c"
  from Cons.prems(4)[rule_format, of 1] have nt: "py_tail (d @ [b]) (length token) \<noteq> token"
    by simp
  from Cons.prems nt have
    "sock_recv_until_loop i token d c = sock_recv_until_loop i token (d @ [b]) ?c"
    by (subst recv_loop_byte[where ch = b and evs = "map RecvByte bs @ rest"]) auto
  also have "\<dots> = (Inr None, put_sock i ((heap ?c i)\<lparr>recv_script := rest\<rparr>) ?c)"
  proof (intro Cons.IH)
    show "\<forall>k. 0 < k \<and> k \<le> length bs \<longrightarrow>
            py_tail ((d @ [b]) @ take k bs) (length token) \<noteq> token"
      using Cons.prems(4)[rule_format, of "Suc k" for k] by simp
  qed (use Cons.prems in auto)
  finally show ?case by simp
qed

lemma recv_closed:
  assumes "\<not> closed (heap c i)" "recv_script (heap c i) = map RecvByte bs @ RecvClosed # rest"
    "length d + length bs \<le> 4096"
    "\<forall>k. 0 < k \<and> k \<le> length bs \<longrightarrow> py_tail (d @ take k bs) (length token) \<noteq> token"
  shows "sock_recv_until_loop i token d c =
     (Inr None, put_sock i ((heap c i)\<lparr>recv_script := RecvClosed # rest\<rparr>) c)"
  using assms
proof (induction bs arbitrary: d c)
  case Nil
  then have "recv_prim (heap c i) = (Done [], heap c i)"
    by (simp add: recv_prim_def)
  moreover from Nil have "put_sock i ((heap c i)\<lparr>recv_script := RecvClosed # rest\<rparr>) c = c"
    by (intro put_sock_script_triv) simp
  ultimately show ?case using Nil
    by (subst sock_recv_until_loop.simps) simp
next
  case (Cons b bs)
  let ?c = "put_sock i ((heap c i)\<lparr>recv_script := map RecvByte bs @ RecvClosed # rest\<rparr>) c"
  from Cons.prems(4)[rule_format, of 1] have nt: "py_tail (d @ [b]) (length token) \<noteq> token"
    by simp
  from Cons.prems nt have
    "sock_recv_until_loop i token d c = sock_recv_until_loop i token (d @ [b]) ?c"
    by (subst recv_loop_byte[where ch = b and evs = "map RecvByte bs @ RecvClosed # rest"]) auto
  also have "\<dots> = (Inr None, put_sock i ((heap ?c i)\<lparr>recv_script := RecvClosed # rest\<rparr>) ?c)"
  proof (intro Cons.IH)
    show "\<forall>k. 0 < k \<and> k \<le> length bs \<longrightarrow>
            py_tail ((d @ [b]) @ take k bs) (length token) \<noteq> token"
      using Cons.prems(4)[rule_format, of "Suc k" for k] by simp
  qed (use Cons.prems in auto)
  finally show ?case by simp
qed

lemma recv_line0:
  assumes "\<not> closed (heap c i)"
    "recv_script (heap c i) = map RecvByte (l @ newline) @ rest"
    "CHR 0x0A \<notin> set l" "length l \<le> 4096"
  shows "sock_recv_until i newline c =
     (Inr (Some (l @ newline)), put_sock i ((heap c i)\<lparr>recv_script := rest\<rparr>) c)"
  using recv_line[of c i l rest "[]"] assms by (simp add: sock_recv_until_def)

lemma stale_line_skips:
  assumes "stale_line seq obj"
  shows "(case py_in ''return'' obj of
            Inl e \<Rightarrow> (Inl e, c')
          | Inr False \<Rightarrow> k
          | Inr True \<Rightarrow>
              (case py_getitem obj ''return'' of
                 Inl TypeError \<Rightarrow> k
               | Inl e \<Rightarrow> (Inl e, c')
               | Inr v \<Rightarrow> (if py_eq_int v seq then (Inr (), c') else k))) = k"
proof (cases obj)
  case (PDict kvs)
  with assms show ?thesis
    by (auto simp: stale_line_def py_in_dict simp del: py_in.simps split: option.splits)
qed (use assms in \<open>auto simp: stale_line_def\<close>)

lemma sync_reply_breaks:
  assumes "sync_reply seq obj"
  shows "(case py_in ''return'' obj of
            Inl e \<Rightarrow> (Inl e, c')
          | Inr False \<Rightarrow> k
          | Inr True \<Rightarrow>
              (case py_getitem obj ''return'' of
                 Inl TypeError \<Rightarrow> k
               | Inl e \<Rightarrow> (Inl e, c')
               | Inr v \<Rightarrow> (if py_eq_int v seq then (Inr (), c') else k))) = (Inr (), c')"
proof (cases obj)
  case (PDict kvs)
  with assms show ?thesis
    by (auto simp: sync_reply_def py_in_dict simp del: py_in.simps split: option.splits)
qed (use assms in \<open>auto simp: sync_reply_def\<close>)

lemma reset_loop_stale:
  assumes "\<not> closed (heap c i)"
    "recv_script (heap c i) = map RecvByte (l @ newline) @ rest"
    "CHR 0x0A \<notin> set l" "length l \<le> 4096"
    "parses L (l @ newline) obj" "stale_line seq obj"
  shows "reset_conn_loop L i seq c =
     reset_conn_loop L i seq (put_sock i ((heap c i)\<lparr>recv_script := rest\<rparr>) c)"
proof -
  from assms(5) obtain tx where "decode_utf8 L (l @ newline) = Inr tx" "loads L tx = Inr obj"
    by (auto simp: parses_def split: sum.splits)
  then show ?thesis
    by (subst reset_conn_loop.simps)
       (simp add: recv_line0[OF assms(1-4)] stale_line_skips[OF assms(6)])
qed

lemma reset_loop_reply:
  assumes "\<not> closed (heap c i)"
    "recv_script (heap c i) = map RecvByte (l @ newline) @ rest"
    "CHR 0x0A \<notin> set l" "length l \<le> 4096"
    "parses L (l @ newline) obj" "sync_reply seq obj"
  shows "reset_conn_loop L i seq c =
     (Inr (), put_sock i ((heap c i)\<lparr>recv_script := rest\<rparr>) c)"
proof -
  from assms(5) obtain tx where "decode_utf8 L (l @ newline) = Inr tx" "loads L tx = Inr obj"
    by (auto simp: parses_def split: sum.splits)
  then show ?thesis
    by (subst reset_conn_loop.simps)
       (simp add: recv_line0[OF assms(1-4)] sync_reply_breaks[OF assms(6)])
qed

lemma feed_Cons: "feed (l # ls) = map RecvByte (l @ newline) @ feed ls"
  by (simp add: feed_def)

lemma feed_Nil [simp]: "feed [] = []"
  by (simp add: feed_def)

lemma reset_loop_feed:
  assumes "\<not> closed (heap c i)"
    "recv_script (heap c i) = feed (stale @ [reply]) @ rest"
    "\<forall>l\<in>set (stale @ [reply]). CHR 0x0A \<notin> set l \<and> length l \<le> 4096"
    "\<forall>l\<in>set stale. \<exists>obj. parses L (l @ newline) obj \<and> stale_line seq obj"
    "\<exists>obj. parses L (reply @ newline) obj \<and> sync_reply seq obj"
  shows "reset_conn_loop L i seq c =
     (Inr (), put_sock i ((heap c i)\<lparr>recv_script := rest\<rparr>) c)"
  using assms
proof (induction stale arbitrary: c)
  case Nil
  then obtain obj where "parses L (reply @ newline) obj" "sync_reply seq obj" by blast
  with Nil show ?case
    by (intro reset_loop_reply[where l = reply and obj = obj]) (simp_all add: feed_Cons)
next
  case (Cons l stale)
  let ?c = "put_sock i ((heap c i)\<lparr>recv_script := feed (stale @ [reply]) @ rest\<rparr>) c"
  from Cons.prems(4) obtain obj where "parses L (l @ newline) obj" "stale_line seq obj"
    by auto
  with Cons.prems have "reset_conn_loop L i seq c = reset_conn_loop L i seq ?c"
    by (intro reset_loop_stale[where l = l and obj = obj]) (simp_all add: feed_Cons)
  also have "\<dots> = (Inr (), put_sock i ((heap ?c i)\<lparr>recv_script := rest\<rparr>) ?c)"
    using Cons.prems by (intro Cons.IH) auto
  finally show ?case by simp
qed

lemma serializable_sync [simp]: "serializable (sync_request seq)"
  by (simp add: sync_request_def)


lemma py_tail_last: "xs \<noteq> [] \<Longrightarrow> py_tail xs (length newline) = [last xs]"
  by (cases xs rule: rev_cases) (simp_all add: newline_def)

lemma no_newline_prefix:
  assumes "CHR 0x0A \<notin> set bs" "0 < k" "k \<le> length bs"
  shows "py_tail (take k bs) (length newline) \<noteq> newline"
proof -
  from assms have ne: "take k bs \<noteq> []" by auto
  then have "last (take k bs) \<in> set (take k bs)" by (rule last_in_set)
  then have "last (take k bs) \<in> set bs" by (rule in_set_takeD)
  with assms(1) have "last (take k bs) \<noteq> CHR 0x0A" by auto
  with py_tail_last[OF ne] show ?thesis by (simp add: newline_def)
qed

lemma recv_until_too_long:
  assumes "\<not> closed (heap c i)" "recv_script (heap c i) = map RecvByte bs @ rest"
    "length bs = 4097"
    "\<forall>k. 0 < k \<and> k \<le> 4097 \<longrightarrow> py_tail (take k bs) (length token) \<noteq> token"
  shows "sock_recv_until i token c =
     (Inr None, put_sock i ((heap c i)\<lparr>recv_script := rest\<rparr>) c)"
  using recv_too_long[of c i bs rest "[]" token] assms by (simp add: sock_recv_until_def)

lemma recv_until_eof:
  assumes "\<not> closed (heap c i)" "recv_script (heap c i) = map RecvByte part @ RecvClosed # rest"
    "CHR 0x0A \<notin> set part" "length part \<le> 4096"
  shows "sock_recv_until i newline c =
     (Inr None, put_sock i ((heap c i)\<lparr>recv_script := RecvClosed # rest\<rparr>) c)"
  using recv_closed[of c i part rest "[]" newline] assms no_newline_prefix[of part]
  by (simp add: sock_recv_until_def)

lemma reset_loop_too_long:
  assumes "\<not> closed (heap c i)" "recv_script (heap c i) = map RecvByte l @ rest"
    "4096 < length l" "CHR 0x0A \<notin> set (take 4097 l)"
  shows "reset_conn_loop L i seq c =
     (Inl AttributeError,
      put_sock i ((heap c i)\<lparr>recv_script := map RecvByte (drop 4097 l) @ rest\<rparr>) c)"
proof -
  have "map RecvByte l = map RecvByte (take 4097 l) @ map RecvByte (drop 4097 l)"
    by (simp flip: map_append)
  with assms(2) have
    rs: "recv_script (heap c i) = map RecvByte (take 4097 l) @ map RecvByte (drop 4097 l) @ rest"
    by simp
  have "sock_recv_until i newline c =
     (Inr None,
      put_sock i ((heap c i)\<lparr>recv_script := map RecvByte (drop 4097 l) @ rest\<rparr>) c)"
    using assms(1) rs
  proof (rule recv_until_too_long)
    show "length (take 4097 l) = 4097" using assms(3) by simp
    show "\<forall>k. 0 < k \<and> k \<le> 4097 \<longrightarrow>
            py_tail (take k (take 4097 l)) (length newline) \<noteq> newline"
      using no_newline_prefix[OF assms(4)] assms(3) by simp
  qed
  then show ?thesis
    by (subst reset_conn_loop.simps) simp
qed

lemma reset_loop_eof:
  assumes "\<not> closed (heap c i)"
    "recv_script (heap c i) = feed stale @ map RecvByte part @ RecvClosed # rest"
    "\<forall>l\<in>set stale. CHR 0x0A \<notin> set l \<and> length l \<le> 4096"
    "\<forall>l\<in>set stale. \<exists>obj. parses L (l @ newline) obj \<and> stale_line seq obj"
    "CHR 0x0A \<notin> set part" "length part \<le> 4096"
  shows "reset_conn_loop L i seq c =
     (Inl AttributeError, put_sock i ((heap c i)\<lparr>recv_script := RecvClosed # rest\<rparr>) c)"
  using assms
proof (induction stale arbitrary: c)
  case Nil
  then have "sock_recv_until i newline c =
     (Inr None, put_sock i ((heap c i)\<lparr>recv_script := RecvClosed # rest\<rparr>) c)"
    by (intro recv_until_eof[where part = part]) simp_all
  then show ?case
    by (subst reset_conn_loop.simps) simp
next
  case (Cons l stale)
  let ?c = "put_sock i ((heap c i)\<lparr>recv_script :=
               feed stale @ map RecvByte part @ RecvClosed # rest\<rparr>) c"
  from Cons.prems(4) obtain obj where "parses L (l @ newline) obj" "stale_line seq obj"
    by auto
  with Cons.prems have "reset_conn_loop L i seq c = reset_conn_loop L i seq ?c"
    by (intro reset_loop_stale[where l = l and obj = obj]) (simp_all add: feed_Cons)
  also have "\<dots> = (Inl AttributeError,
       put_sock i ((heap ?c i)\<lparr>recv_script := RecvClosed # rest\<rparr>) ?c)"
    using Cons.prems by (intro Cons.IH) auto
  finally show ?case by simp
qed

text \<open>The handshake as a whole, once the sync request has gone out.\<close>

lemma reset_conn_after_send:
  assumes "\<not> closed (heap c i)"
    and "send_script (heap c i) = map SendRoom ns @ srest" and "\<forall>n\<in>set ns. 0 < n"
    and "length (encode_utf8 L (dumps_text L (sync_request (now c mod 2147483647)))) \<le> sum_list ns"
  shows "\<exists>s'. reset_conn L i c = reset_conn_loop L i (now c mod 2147483647) (put_sock i s' c) \<and>
           wire s' = wire (heap c i) @
             encode_utf8 L (dumps_text L (sync_request (now c mod 2147483647))) \<and>
           recv_script s' = recv_script (heap c i) \<and> \<not> closed s'"
proof -
  let ?msg = "encode_utf8 L (dumps_text L (sync_request (now c mod 2147483647)))"
  from send_loop_ok[of c i ns srest 0 ?msg] assms obtain s' where
    "sock_send i ?msg c = (Inr (), put_sock i s' c)"
    "wire s' = wire (heap c i) @ ?msg" "recv_script s' = recv_script (heap c i)" "\<not> closed s'"
    by (auto simp: sock_send_def)
  then show ?thesis
    by (intro exI[of _ s']) (simp add: reset_conn_def json_dumps_def Let_def)
qed


section \<open>Facts about the concrete instances\<close>

lemma demo_client_sock0 [simp]:
  "heap (demo_client s) 0 = s" "sock (demo_client s) = Some 0" "now (demo_client s) = 5"
  by (simp_all add: demo_client_def)

lemma demo_sock_fields [simp]:
  "send_script (demo_sock ss rs) = ss" "recv_script (demo_sock ss rs) = rs"
  "\<not> closed (demo_sock ss rs)" "\<not> shutdown_fails (demo_sock ss rs)" "wire (demo_sock ss rs) = []"
  by (simp_all add: demo_sock_def)


lemma demo_sync_text:
  \<open>encode_utf8 demo_lib (dumps_text demo_lib (sync_request 5)) =
     ''{"execute": "guest-sync", "arguments": {"id": 5}}''\<close>
  by (simp add: demo_lib_def demo_dumps_def)

lemma demo_parses:
  \<open>parses demo_lib (''{"return": 3}'' @ newline) (PDict [(''return'', PInt 3)])\<close>
  \<open>parses demo_lib (''{"return": "5"}'' @ newline) (PDict [(''return'', PStr ''5'')])\<close>
  \<open>parses demo_lib (''{"return": 5}'' @ newline) (PDict [(''return'', PInt 5)])\<close>
  \<open>parses demo_lib (''{"return": {}}'' @ newline) (PDict [(''return'', PDict [])])\<close>
  by (simp_all add: parses_def demo_lib_def demo_loads_def demo_table_def strip_newline_def
        newline_def)

lemma long_line_parses:
  "parses demo_lib (long_line @ newline) (PDict [(''return'', PStr (replicate 4090 (CHR ''a'')))])"
proof -
  have "strip_newline (long_line @ newline) = long_line"
    by (simp add: strip_newline_def newline_def)
  moreover have "long_return long_line"
    by (simp add: long_return_def long_line_def list_all_iff)
  moreover have "take (length long_line - 14) (drop 12 long_line) = replicate 4090 (CHR ''a'')"
    by (simp add: long_line_def)
  moreover have "long_line \<noteq> s" if "length s < 100" for s
    using that by (auto simp: long_line_def)
  ultimately show ?thesis
    by (simp add: parses_def demo_lib_def demo_loads_def demo_table_def)
qed

section \<open>Sending a message\<close>

text \<open>
  Claim C5. On an open socket whose kernel accepts the message in pieces (every
  \<open>send\<close> accepts at least one byte, together at least the length of the message),
  \<open>_sock_send\<close> returns and the bytes put on the wire are exactly the message,
  once and in order. When the pieces fall short of the message and the next \<open>send\<close>
  reports zero bytes, \<open>_sock_send\<close> raises \<open>ProtocolError(-1, "Unable to send on
  socket")\<close>, the wire holding the bytes accepted before, and \<open>self.sock\<close> is \<open>None\<close>.
\<close>

theorem sock_send_partial_writes:
  assumes "\<not> closed (heap c i)" and "send_script (heap c i) = map SendRoom ns @ rest"
    and "\<forall>n\<in>set ns. 0 < n"
  shows "(length msg \<le> sum_list ns \<longrightarrow>
            (\<exists>c'. sock_send i msg c = (Inr (), c') \<and>
                  wire (heap c' i) = wire (heap c i) @ msg \<and>
                  \<not> closed (heap c' i) \<and> sock c' = sock c)) \<and>
         (sum_list ns < length msg \<longrightarrow> sock c = Some i \<longrightarrow>
            (\<forall>t. rest = SendRoom 0 # t \<longrightarrow>
              (\<exists>c'. sock_send i msg c =
                      (Inl (ProtocolError (- 1) ''Unable to send on socket''), c') \<and>
                    wire (heap c' i) = wire (heap c i) @ take (sum_list ns) msg \<and>
                    sock c' = None)))"
proof (intro conjI impI allI)
  assume "length msg \<le> sum_list ns"
  with send_loop_ok[of c i ns rest 0 msg] assms
  show "\<exists>c'. sock_send i msg c = (Inr (), c') \<and> wire (heap c' i) = wire (heap c i) @ msg \<and>
             \<not> closed (heap c' i) \<and> sock c' = sock c"
    by (auto simp: sock_send_def)
next
  fix t
  assume "sum_list ns < length msg" "sock c = Some i" "rest = SendRoom 0 # t"
  with send_loop_zero[of c i ns t msg 0] assms
  show "\<exists>c'. sock_send i msg c = (Inl (ProtocolError (- 1) ''Unable to send on socket''), c') \<and>
             wire (heap c' i) = wire (heap c i) @ take (sum_list ns) msg \<and> sock c' = None"
    by (simp add: sock_send_def)
qed

theorem sock_send_partial_writes_witness:
  "(\<exists>c'. sock_send 0 ''hello world''
            (demo_client (demo_sock [SendRoom 3, SendRoom 1, SendRoom 100, SendRoom 0] [])) =
            (Inr (), c') \<and>
          wire (heap c' 0) = ''hello world'' \<and> \<not> closed (heap c' 0) \<and> sock c' = Some 0) \<and>
   (\<exists>c'. sock_send 0 ''hello world''
            (demo_client (demo_sock [SendRoom 3, SendRoom 1, SendRoom 0, SendRoom 100] [])) =
            (Inl (ProtocolError (- 1) ''Unable to send on socket''), c') \<and>
          wire (heap c' 0) = ''hell'' \<and> sock c' = None)"
proof -
  let ?a = "demo_client (demo_sock [SendRoom 3, SendRoom 1, SendRoom 100, SendRoom 0] [])"
  let ?b = "demo_client (demo_sock [SendRoom 3, SendRoom 1, SendRoom 0, SendRoom 100] [])"
  from sock_send_partial_writes[where c = ?a and i = 0 and ns = "[3, 1, 100]"
         and rest = "[SendRoom 0]" and msg = "''hello world''", THEN conjunct1]
  have a: "\<exists>c'. sock_send 0 ''hello world'' ?a = (Inr (), c') \<and>
          wire (heap c' 0) = ''hello world'' \<and> \<not> closed (heap c' 0) \<and> sock c' = Some 0"
    by simp
  from sock_send_partial_writes[where c = ?b and i = 0 and ns = "[3, 1]"
         and rest = "[SendRoom 0, SendRoom 100]" and msg = "''hello world''", THEN conjunct2]
  have b: "\<exists>c'. sock_send 0 ''hello world'' ?b =
            (Inl (ProtocolError (- 1) ''Unable to send on socket''), c') \<and>
          wire (heap c' 0) = ''hell'' \<and> sock c' = None"
    by simp
  from a b show ?thesis by blast
qed

section \<open>Reading up to the delimiter\<close>

text \<open>
  Claim C2, as it stands, fails: on a stream of 4097 bytes without a newline,
  \<open>_sock_recv_until\<close> returns \<open>None\<close>; it raises nothing.
\<close>

theorem recv_until_returns_None_counterexample:
  "sock_recv_until 0 newline (demo_client (demo_sock [] (replicate 4097 (RecvByte (CHR ''a''))))) =
     (Inr None, demo_client (demo_sock [] []))"
proof -
  let ?c = "demo_client (demo_sock [] (replicate 4097 (RecvByte (CHR ''a''))))"
  have "sock_recv_until 0 newline ?c =
     (Inr None, put_sock 0 ((heap ?c 0)\<lparr>recv_script := []\<rparr>) ?c)"
  proof (rule recv_until_too_long[where bs = "replicate 4097 (CHR ''a'')"])
    show "\<forall>k. 0 < k \<and> k \<le> 4097 \<longrightarrow>
            py_tail (take k (replicate 4097 (CHR ''a''))) (length newline) \<noteq> newline"
      by (intro allI impI no_newline_prefix) simp_all
  qed simp_all
  then show ?thesis
    by (simp add: demo_client_def demo_sock_def put_sock_def)
qed

text \<open>
  Claim C2, amended. When the stream delivers 4097 bytes and no prefix of them
  ends with the delimiter, \<open>_sock_recv_until\<close> returns \<open>None\<close> after reading exactly
  these bytes; no exception is raised, the socket stays open and \<open>self.sock\<close> is as
  before.
\<close>

theorem recv_until_size_limit:
  assumes "\<not> closed (heap c i)" and "recv_script (heap c i) = map RecvByte bs @ rest"
    and "length bs = 4097"
    and "\<forall>k. 0 < k \<and> k \<le> 4097 \<longrightarrow> py_tail (take k bs) (length token) \<noteq> token"
  shows "\<exists>c'. sock_recv_until i token c = (Inr None, c') \<and> recv_script (heap c' i) = rest \<and>
           sock c' = sock c \<and> \<not> closed (heap c' i)"
  using recv_until_too_long[OF assms] assms(1) by simp

theorem recv_until_size_limit_witness:
  "\<exists>c'. sock_recv_until 0 ''ab''
           (demo_client (demo_sock []
              (map RecvByte (replicate 4097 (CHR ''b'')) @ [RecvByte (CHR ''a''), RecvByte (CHR ''b'')]))) =
           (Inr None, c') \<and>
         recv_script (heap c' 0) = [RecvByte (CHR ''a''), RecvByte (CHR ''b'')] \<and>
         sock c' = Some 0 \<and> \<not> closed (heap c' 0)"
proof -
  have "\<forall>k. 0 < k \<and> k \<le> 4097 \<longrightarrow>
          py_tail (take k (replicate 4097 (CHR ''b''))) (length ''ab'') \<noteq> ''ab''"
  proof (intro allI impI)
    fix k :: nat
    assume k: "0 < k \<and> k \<le> 4097"
    have "set (py_tail (take k (replicate 4097 (CHR ''b''))) (length ''ab'')) \<subseteq> {CHR ''b''}"
      by (auto simp: py_tail_def dest!: in_set_dropD in_set_takeD)
    then show "py_tail (take k (replicate 4097 (CHR ''b''))) (length ''ab'') \<noteq> ''ab''"
      by auto
  qed
  from recv_until_size_limit[where c = "demo_client (demo_sock []
              (map RecvByte (replicate 4097 (CHR ''b'')) @ [RecvByte (CHR ''a''), RecvByte (CHR ''b'')]))"
         and i = 0 and bs = "replicate 4097 (CHR ''b'')"
         and rest = "[RecvByte (CHR ''a''), RecvByte (CHR ''b'')]" and token = "''ab''", OF _ _ _ this]
  show ?thesis by simp
qed

section \<open>The handshake\<close>

text \<open>
  Claim C1, as it stands, fails: a buffered stale response line longer than the read
  limit (here a \<open>return\<close> of 4090 characters, as a file read leaves behind) makes
  \<open>_sock_recv_until\<close> return \<open>None\<close>, and the handshake ends in the AttributeError of
  \<open>None.decode\<close> instead of discarding the line.
\<close>

theorem reset_conn_long_line_counterexample:
  \<open>parses demo_lib (long_line @ newline) (PDict [(''return'', PStr (replicate 4090 (CHR ''a'')))]) \<and>
   stale_line 5 (PDict [(''return'', PStr (replicate 4090 (CHR ''a'')))]) \<and>
   CHR 0x0A \<notin> set long_line \<and>
   parses demo_lib (''{"return": 5}'' @ newline) (PDict [(''return'', PInt 5)]) \<and>
   sync_reply 5 (PDict [(''return'', PInt 5)]) \<and>
   fst (reset_conn demo_lib 0
          (demo_client (demo_sock [SendRoom 100] (feed [long_line, ''{"return": 5}''])))) =
     Inl AttributeError\<close>
proof -
  let ?c = \<open>demo_client (demo_sock [SendRoom 100] (feed [long_line, ''{"return": 5}'']))\<close>
  have "\<exists>s'. reset_conn demo_lib 0 ?c = reset_conn_loop demo_lib 0 (now ?c mod 2147483647) (put_sock 0 s' ?c) \<and>
           wire s' = wire (heap ?c 0) @
             encode_utf8 demo_lib (dumps_text demo_lib (sync_request (now ?c mod 2147483647))) \<and>
           recv_script s' = recv_script (heap ?c 0) \<and> \<not> closed s'"
    by (rule reset_conn_after_send[where ns = "[100]" and srest = "[]"])
       (simp_all add: demo_sync_text)
  then obtain s' where
    r: "reset_conn demo_lib 0 ?c = reset_conn_loop demo_lib 0 5 (put_sock 0 s' ?c)"
    and s': \<open>recv_script s' = feed [long_line, ''{"return": 5}'']\<close> "\<not> closed s'"
    by auto
  have nl: "CHR 0x0A \<notin> set long_line"
    by (simp add: long_line_def)
  have \<open>reset_conn_loop demo_lib 0 5 (put_sock 0 s' ?c) =
     (Inl AttributeError,
      put_sock 0 ((heap (put_sock 0 s' ?c) 0)\<lparr>recv_script :=
          map RecvByte (drop 4097 (long_line @ newline)) @ feed [''{"return": 5}'']\<rparr>)
        (put_sock 0 s' ?c))\<close>
  proof (rule reset_loop_too_long)
    show "CHR 0x0A \<notin> set (take 4097 (long_line @ newline))"
      using nl by (auto simp: long_line_def dest: in_set_takeD)
  qed (use s' in \<open>simp_all add: feed_Cons long_line_def\<close>)
  with r have "fst (reset_conn demo_lib 0 ?c) = Inl AttributeError" by simp
  with nl long_line_parses demo_parses(3) show ?thesis
    by (simp add: stale_line_def sync_reply_def)
qed

text \<open>
  Claim C1, amended with the bound on the length of a line. On an open socket that
  accepts the sync request, with \<open>N\<close> stale lines buffered, followed by the sync
  reply and by anything else (\<open>rest\<close>), every line without a newline inside and of
  at most 4096 bytes before its newline: \<open>_reset_conn\<close> returns, and has read the
  \<open>N\<close> stale lines and the reply and nothing more. A \<open>return\<close> value of another type
  than the token makes a line stale; it is no error. The channel stays open and
  \<open>self.sock\<close> is as before.
\<close>

theorem reset_conn_drains:
  assumes "\<not> closed (heap c i)"
    and "send_script (heap c i) = map SendRoom ns @ srest" and "\<forall>n\<in>set ns. 0 < n"
    and "length (encode_utf8 L (dumps_text L (sync_request (now c mod 2147483647)))) \<le> sum_list ns"
    and "recv_script (heap c i) = feed (stale @ [reply]) @ rest"
    and "\<forall>l\<in>set (stale @ [reply]). CHR 0x0A \<notin> set l \<and> length l \<le> 4096"
    and "\<forall>l\<in>set stale. \<exists>obj. parses L (l @ newline) obj \<and> stale_line (now c mod 2147483647) obj"
    and "\<exists>obj. parses L (reply @ newline) obj \<and> sync_reply (now c mod 2147483647) obj"
  shows "\<exists>c'. reset_conn L i c = (Inr (), c') \<and> recv_script (heap c' i) = rest \<and>
           wire (heap c' i) =
             wire (heap c i) @ encode_utf8 L (dumps_text L (sync_request (now c mod 2147483647))) \<and>
           \<not> closed (heap c' i) \<and> sock c' = sock c"
proof -
  let ?seq = "now c mod 2147483647"
  from reset_conn_after_send[OF assms(1-4)] obtain s' where
    r: "reset_conn L i c = reset_conn_loop L i ?seq (put_sock i s' c)"
    and s': "wire s' = wire (heap c i) @ encode_utf8 L (dumps_text L (sync_request ?seq))"
       "recv_script s' = recv_script (heap c i)" "\<not> closed s'"
    by blast
  let ?c = "put_sock i s' c"
  have "reset_conn_loop L i ?seq ?c = (Inr (), put_sock i ((heap ?c i)\<lparr>recv_script := rest\<rparr>) ?c)"
    using assms(5-8) s' by (intro reset_loop_feed[where stale = stale and reply = reply]) auto
  with r s' show ?thesis by simp
qed

theorem reset_conn_drains_witness:
  \<open>\<exists>c'. reset_conn demo_lib 0
           (demo_client (demo_sock [SendRoom 20, SendRoom 100]
              (feed [''{"return": 3}'', ''{"return": "5"}'', ''{"return": 5}'',
                     ''{"return": {}}'']))) = (Inr (), c') \<and>
         recv_script (heap c' 0) = feed [''{"return": {}}''] \<and>
         wire (heap c' 0) = ''{"execute": "guest-sync", "arguments": {"id": 5}}'' \<and>
         \<not> closed (heap c' 0) \<and> sock c' = Some 0\<close>
proof -
  let ?c = \<open>demo_client (demo_sock [SendRoom 20, SendRoom 100]
              (feed [''{"return": 3}'', ''{"return": "5"}'', ''{"return": 5}'',
                     ''{"return": {}}'']))\<close>
  have \<open>\<exists>c'. reset_conn demo_lib 0 ?c = (Inr (), c') \<and>
           recv_script (heap c' 0) = feed [''{"return": {}}''] \<and>
           wire (heap c' 0) =
             wire (heap ?c 0) @
             encode_utf8 demo_lib (dumps_text demo_lib (sync_request (now ?c mod 2147483647))) \<and>
           \<not> closed (heap c' 0) \<and> sock c' = sock ?c\<close>
  proof (rule reset_conn_drains[where ns = "[20, 100]" and srest = "[]"
           and stale = \<open>[''{"return": 3}'', ''{"return": "5"}'']\<close>
           and reply = \<open>''{"return": 5}''\<close>])
    show \<open>\<forall>l\<in>set [''{"return": 3}'', ''{"return": "5"}''].
            \<exists>obj. parses demo_lib (l @ newline) obj \<and>
                  stale_line (now ?c mod 2147483647) obj\<close>
      using demo_parses(1,2) by (auto simp: stale_line_def)
    show \<open>\<exists>obj. parses demo_lib (''{"return": 5}'' @ newline) obj \<and>
                sync_reply (now ?c mod 2147483647) obj\<close>
      using demo_parses(3) by (auto simp: sync_reply_def)
  qed (simp_all add: demo_sync_text feed_Cons)
  then show ?thesis by (simp add: demo_sync_text)
qed

text \<open>
  Claim C3 asks for a \<open>ProtocolError\<close> when the peer closes the stream during the
  handshake. The code at this input: after one stale line the peer closes,
  \<open>_sock_recv_until\<close> returns \<open>None\<close>, and \<open>None.decode\<close> raises AttributeError. The
  parser is not reached, but the exception is not a \<open>ProtocolError\<close>, and the socket
  is neither closed nor is \<open>self.sock\<close> reset, unlike on a timeout or a socket error.
\<close>

theorem reset_conn_eof_raises_AttributeError:
  \<open>reset_conn demo_lib 0
     (demo_client (demo_sock [SendRoom 100] (feed [''{"return": 3}''] @ [RecvClosed]))) =
   (Inl AttributeError,
    demo_client ((demo_sock [] [RecvClosed])
      \<lparr>wire := ''{"execute": "guest-sync", "arguments": {"id": 5}}''\<rparr>))\<close>
proof -
  let ?c = \<open>demo_client (demo_sock [SendRoom 100] (feed [''{"return": 3}''] @ [RecvClosed]))\<close>
  have one: "sock_send_loop 0 (encode_utf8 demo_lib (dumps_text demo_lib (sync_request 5))) 0 ?c =
     (Inr (), put_sock 0 ((heap ?c 0)\<lparr>send_script := [],
        wire := encode_utf8 demo_lib (dumps_text demo_lib (sync_request 5))\<rparr>) ?c)"
    by (subst send_loop_room[where n = 100 and evs = "[]"])
       (simp_all add: demo_sync_text send_loop_done)
  let ?c1 = "put_sock 0 ((heap ?c 0)\<lparr>send_script := [],
        wire := encode_utf8 demo_lib (dumps_text demo_lib (sync_request 5))\<rparr>) ?c"
  have two: "reset_conn_loop demo_lib 0 5 ?c1 =
     (Inl AttributeError, put_sock 0 ((heap ?c1 0)\<lparr>recv_script := RecvClosed # []\<rparr>) ?c1)"
  proof (rule reset_loop_eof[where stale = \<open>[''{"return": 3}'']\<close> and part = "[]"])
    show \<open>\<forall>l\<in>set [''{"return": 3}''].
            \<exists>obj. parses demo_lib (l @ newline) obj \<and> stale_line 5 obj\<close>
      using demo_parses(1) by (auto simp: stale_line_def)
  qed simp_all
  show ?thesis
    using one two
    by (simp add: reset_conn_def json_dumps_def sock_send_def demo_sync_text)
       (simp add: demo_client_def demo_sock_def put_sock_def)
qed

section \<open>What a successful operation leaves behind\<close>













lemma send_one:
  assumes "\<not> closed (heap c i)" "send_script (heap c i) = SendRoom n # evs"
    "msg \<noteq> []" "length msg \<le> n"
  shows "sock_send i msg c =
     (Inr (), put_sock i ((heap c i)\<lparr>send_script := evs, wire := wire (heap c i) @ msg\<rparr>) c)"
proof -
  from assms(3,4) have "0 < n" by (cases msg) auto
  with assms have "sock_send_loop i msg 0 c =
     sock_send_loop i msg (0 + min n (length msg - 0))
       (put_sock i ((heap c i)\<lparr>send_script := evs,
                              wire := wire (heap c i) @ take n (drop 0 msg)\<rparr>) c)"
    by (intro send_loop_room) auto
  with assms show ?thesis
    by (simp add: sock_send_def send_loop_done)
qed


lemma call_exact:
  assumes "sock c = Some i" "\<not> closed (heap c i)" "send_script (heap c i) = SendRoom n # evs"
    and "serializable (make_request command args)"
    and "msg = encode_utf8 L (dumps_text L (make_request command args))"
    and "msg \<noteq> []" "length msg \<le> n"
    and "recv_script (heap c i) = map RecvByte (l @ newline) @ rest"
    and "CHR 0x0A \<notin> set l" "length l \<le> 4096"
    and "decode_utf8 L (l @ newline) = Inr tx" "QemuAgentRet L tx = Inr r"
  shows "call L command args c =
     (Inr r, put_sock i ((heap c i)\<lparr>send_script := evs, wire := wire (heap c i) @ msg,
                                   recv_script := rest\<rparr>) c)"
proof -
  let ?c = "put_sock i ((heap c i)\<lparr>send_script := evs, wire := wire (heap c i) @ msg\<rparr>) c"
  have snd: "sock_send i msg c = (Inr (), ?c)"
    using assms(2,3,6,7) by (rule send_one)
  have "sock_recv_until i newline ?c =
     (Inr (Some (l @ newline)), put_sock i ((heap ?c i)\<lparr>recv_script := rest\<rparr>) ?c)"
    using assms(2,8-10) by (intro recv_line0) auto
  with snd assms(1,4,5,11,12) show ?thesis
    by (simp add: call_def make_connection_def json_dumps_def)
qed





lemma demo_read_text:
  \<open>encode_utf8 demo_lib (dumps_text demo_lib
       (make_request ''guest-file-read'' (file_read_args (PInt 7) (PInt 5)))) =
     ''{"execute": "guest-file-read", "arguments": {"handle": 7, "count": 5}}''\<close>
  by (simp add: demo_lib_def demo_dumps_def make_request_def sync_request_def file_read_args_def)

lemma demo_read_reply:
  \<open>decode_utf8 demo_lib (''{"return": {"count": 5, "buf-b64": "aGVsbG8=", "eof": false}}'' @ newline) =
     Inr (''{"return": {"count": 5, "buf-b64": "aGVsbG8=", "eof": false}}'' @ newline)\<close>
  \<open>QemuAgentRet demo_lib (''{"return": {"count": 5, "buf-b64": "aGVsbG8=", "eof": false}}'' @ newline) =
     Inr \<lparr>error = PNone,
          data = PDict [(''count'', PInt 5), (''buf-b64'', PStr ''aGVsbG8=''),
                        (''eof'', PBool False)]\<rparr>\<close>
  \<open>decode_utf8 demo_lib (''{"error": {"class": "CommandNotFound", "data": {}}}'' @ newline) =
     Inr (''{"error": {"class": "CommandNotFound", "data": {}}}'' @ newline)\<close>
  \<open>QemuAgentRet demo_lib (''{"error": {"class": "CommandNotFound", "data": {}}}'' @ newline) =
     Inr \<lparr>error = PDict [(''class'', PStr ''CommandNotFound''), (''data'', PDict [])],
          data = PNone\<rparr>\<close>
  by (simp_all add: QemuAgentRet_def demo_lib_def demo_loads_def demo_table_def
        strip_newline_def newline_def)

lemma demo_read_call:
  assumes "CHR 0x0A \<notin> set l" "length l \<le> 4096"
    "decode_utf8 demo_lib (l @ newline) = Inr (l @ newline)"
    "QemuAgentRet demo_lib (l @ newline) = Inr r"
  shows "\<exists>c'. call demo_lib ''guest-file-read'' (file_read_args (PInt 7) (PInt 5))
           (demo_client (demo_sock [SendRoom 100] (feed [l]))) = (Inr r, c')"
proof -
  let ?c = "demo_client (demo_sock [SendRoom 100] (feed [l]))"
  let ?msg = \<open>''{"execute": "guest-file-read", "arguments": {"handle": 7, "count": 5}}''\<close>
  have "call demo_lib ''guest-file-read'' (file_read_args (PInt 7) (PInt 5)) ?c =
     (Inr r, put_sock 0 ((heap ?c 0)\<lparr>send_script := [], wire := wire (heap ?c 0) @ ?msg,
                                    recv_script := []\<rparr>) ?c)"
  proof (rule call_exact[where n = 100 and l = l and tx = "l @ newline" and msg = ?msg])
    show "?msg = encode_utf8 demo_lib (dumps_text demo_lib
            (make_request ''guest-file-read'' (file_read_args (PInt 7) (PInt 5))))"
      by (simp only: demo_read_text)
    show "serializable (make_request ''guest-file-read'' (file_read_args (PInt 7) (PInt 5)))"
      by (simp add: make_request_def file_read_args_def)
  qed (use assms in \<open>simp_all add: feed_Cons\<close>)
  then show ?thesis by blast
qed



section \<open>Transport faults and the next call\<close>




section \<open>The command API\<close>

lemma b64_hello_enc: "b64encode ''hello'' = ''aGVsbG8=''"
  by (simp add: b64_char_def b64_alphabet_def Let_def)

lemma b64_hello_dec: "b64decode (PStr ''aGVsbG8='') = Inr ''hello''"
  by code_simp

lemma dict_set_lookup: "map_of (dict_set kvs k v) k = Some v"
  by (induction kvs) auto


text \<open>
  Claim C7 says that \<open>file_write(handle, b"hello")\<close> puts the text \<open>"aGVsbG8="\<close> into
  the arguments and marshals them. The code at this input: \<open>base64.b64encode\<close> returns
  a \<open>bytes\<close> object, which is what the argument mapping holds under \<open>buf-b64\<close>, and
  \<open>json.dumps\<close> raises TypeError on it; with either client the call ends there,
  before anything is sent.
\<close>

theorem file_write_bytes_not_serializable:
  "file_write_args handle ''hello'' =
     PDict [(''handle'', handle), (''buf-b64'', PBytes ''aGVsbG8='')] \<and>
   file_write_args handle ''hello'' \<noteq>
     PDict [(''handle'', handle), (''buf-b64'', PStr ''aGVsbG8='')] \<and>
   file_write (call L) handle ''hello'' c = (Inl TypeError, c) \<and>
   file_write (Libvirt_method L) handle ''hello'' self = (Inl TypeError, self)"
  by (simp add: file_write_args_def b64_hello_enc file_write_def call_def Libvirt_method_def
        Libvirt_call_def json_dumps_def make_request_def del: b64encode.simps)

text \<open>
  Claim C8. When the call behind \<open>file_read\<close> returns a Response whose payload is a
  mapping with \<open>"aGVsbG8="\<close> under \<open>buf-b64\<close>, \<open>file_read\<close> returns that Response with the
  bytes \<open>hello\<close> added to the payload under \<open>buf\<close>. When the Response has no payload
  (\<open>data\<close> is \<open>None\<close>, as in every error Response, or otherwise false), it is returned
  as it is and nothing is decoded.
\<close>

theorem file_read_decodes_buffer:
  assumes "cl ''guest-file-read'' (file_read_args handle count) s = (Inr ret, s')"
  shows "(data ret = PDict kvs \<longrightarrow> map_of kvs ''buf-b64'' = Some (PStr ''aGVsbG8='') \<longrightarrow>
            file_read cl handle count s =
              (Inr (ret\<lparr>data := PDict (dict_set kvs ''buf'' (PBytes ''hello''))\<rparr>), s') \<and>
            py_getitem (PDict (dict_set kvs ''buf'' (PBytes ''hello''))) ''buf'' =
              Inr (PBytes ''hello'')) \<and>
         (\<not> truthy (data ret) \<longrightarrow> file_read cl handle count s = (Inr ret, s'))"
proof (rule conjI)
  show "data ret = PDict kvs \<longrightarrow> map_of kvs ''buf-b64'' = Some (PStr ''aGVsbG8='') \<longrightarrow>
            file_read cl handle count s =
              (Inr (ret\<lparr>data := PDict (dict_set kvs ''buf'' (PBytes ''hello''))\<rparr>), s') \<and>
            py_getitem (PDict (dict_set kvs ''buf'' (PBytes ''hello''))) ''buf'' =
              Inr (PBytes ''hello'')"
  proof (intro impI)
    assume d: "data ret = PDict kvs" and k: "map_of kvs ''buf-b64'' = Some (PStr ''aGVsbG8='')"
    from k have "kvs \<noteq> []" by auto
    with d k have "decode_buffer ret =
        Inr (ret\<lparr>data := PDict (dict_set kvs ''buf'' (PBytes ''hello''))\<rparr>)"
      by (simp add: decode_buffer_def b64_hello_dec del: b64decode.simps)
    with assms show "file_read cl handle count s =
              (Inr (ret\<lparr>data := PDict (dict_set kvs ''buf'' (PBytes ''hello''))\<rparr>), s') \<and>
            py_getitem (PDict (dict_set kvs ''buf'' (PBytes ''hello''))) ''buf'' =
              Inr (PBytes ''hello'')"
      by (simp add: file_read_def dict_set_lookup)
  qed
next
  show "\<not> truthy (data ret) \<longrightarrow> file_read cl handle count s = (Inr ret, s')"
    using assms by (simp add: file_read_def decode_buffer_def)
qed

theorem file_read_decodes_buffer_witness:
  \<open>(\<exists>c'. file_read (call demo_lib) (PInt 7) (PInt 5)
            (demo_client (demo_sock [SendRoom 100]
               (feed [''{"return": {"count": 5, "buf-b64": "aGVsbG8=", "eof": false}}'']))) =
          (Inr \<lparr>error = PNone,
                data = PDict [(''count'', PInt 5), (''buf-b64'', PStr ''aGVsbG8=''),
                              (''eof'', PBool False), (''buf'', PBytes ''hello'')]\<rparr>, c')) \<and>
    (\<exists>c'. file_read (call demo_lib) (PInt 7) (PInt 5)
            (demo_client (demo_sock [SendRoom 100]
               (feed [''{"error": {"class": "CommandNotFound", "data": {}}}'']))) =
          (Inr \<lparr>error = PDict [(''class'', PStr ''CommandNotFound''), (''data'', PDict [])],
                data = PNone\<rparr>, c'))\<close>
proof -
  from demo_read_call[OF _ _ demo_read_reply(1) demo_read_reply(2)] obtain c1 where
    a: \<open>call demo_lib ''guest-file-read'' (file_read_args (PInt 7) (PInt 5))
          (demo_client (demo_sock [SendRoom 100]
             (feed [''{"return": {"count": 5, "buf-b64": "aGVsbG8=", "eof": false}}'']))) =
        (Inr \<lparr>error = PNone,
              data = PDict [(''count'', PInt 5), (''buf-b64'', PStr ''aGVsbG8=''),
                            (''eof'', PBool False)]\<rparr>, c1)\<close>
    by auto
  from demo_read_call[OF _ _ demo_read_reply(3) demo_read_reply(4)] obtain c2 where
    b: \<open>call demo_lib ''guest-file-read'' (file_read_args (PInt 7) (PInt 5))
          (demo_client (demo_sock [SendRoom 100]
             (feed [''{"error": {"class": "CommandNotFound", "data": {}}}'']))) =
        (Inr \<lparr>error = PDict [(''class'', PStr ''CommandNotFound''), (''data'', PDict [])],
              data = PNone\<rparr>, c2)\<close>
    by auto
  from file_read_decodes_buffer[where cl = "call demo_lib" and handle = "PInt 7"
         and count = "PInt 5"
         and kvs = "[(''count'', PInt 5), (''buf-b64'', PStr ''aGVsbG8=''), (''eof'', PBool False)]",
         OF a, THEN conjunct1, rule_format]
       file_read_decodes_buffer[where cl = "call demo_lib" and handle = "PInt 7"
         and count = "PInt 5", OF b, THEN conjunct2, rule_format]
  show ?thesis by simp
qed

section \<open>Construction of the relay client\<close>

text \<open>
  Claim C9. When looking up \<open>qemuAgentCommand\<close> on the hypervisor interface raises,
  the constructor raises: \<open>Exception("hypervisor does not support qemuAgentCommand")\<close>
  for a KeyError, the exception itself otherwise. When the lookup yields the
  method, the constructor returns the client, and every call of that client is the
  method applied to the uuid and the marshalled request, unmarshalled: no check of
  the capability stands in between.
\<close>

theorem Libvirt_init_checks_once:
  "(getattr_qemuAgentCommand hi = Inl e \<longrightarrow>
      Libvirt_init u hi =
        Inl (case e of
               KeyError k \<Rightarrow> PyException ''hypervisor does not support qemuAgentCommand''
             | _ \<Rightarrow> e)) \<and>
   (getattr_qemuAgentCommand hi = Inr f \<longrightarrow>
      Libvirt_init u hi = Inr \<lparr>hypervisor_iface = hi, uuid = u\<rparr> \<and>
      Libvirt_call L \<lparr>hypervisor_iface = hi, uuid = u\<rparr> command args =
        (case json_dumps L (make_request command args) of
           Inl e' \<Rightarrow> Inl e'
         | Inr json_str \<Rightarrow>
             (case f u json_str of
                Inl e' \<Rightarrow> Inl e'
              | Inr response \<Rightarrow> QemuAgentRet L response)))"
  by (auto simp: Libvirt_init_def Libvirt_call_def split: exn.splits sum.splits)

theorem Libvirt_init_checks_once_witness:
  \<open>Libvirt_init ''guest-1'' \<lparr>getattr_qemuAgentCommand = Inl (KeyError ''qemuAgentCommand'')\<rparr> =
     Inl (PyException ''hypervisor does not support qemuAgentCommand'') \<and>
   Libvirt_init ''guest-1'' \<lparr>getattr_qemuAgentCommand = Inl AttributeError\<rparr> =
     Inl AttributeError \<and>
   Libvirt_init ''guest-1'' demo_iface = Inr \<lparr>hypervisor_iface = demo_iface, uuid = ''guest-1''\<rparr> \<and>
   Libvirt_call demo_lib \<lparr>hypervisor_iface = demo_iface, uuid = ''guest-1''\<rparr>
       ''guest-ping'' (PDict []) =
     Inr \<lparr>error = PNone, data = PDict []\<rparr>\<close>
proof -
  have g: \<open>getattr_qemuAgentCommand demo_iface = Inr (\<lambda>u json_str. Inr ''{"return": {}}'')\<close>
    by (simp add: demo_iface_def)
  have q: \<open>QemuAgentRet demo_lib ''{"return": {}}'' = Inr \<lparr>error = PNone, data = PDict []\<rparr>\<close>
    by (simp add: QemuAgentRet_def demo_lib_def demo_loads_def demo_table_def strip_newline_def)
  from Libvirt_init_checks_once[where hi = "\<lparr>getattr_qemuAgentCommand = Inl (KeyError ''qemuAgentCommand'')\<rparr>"
         and e = "KeyError ''qemuAgentCommand''" and u = "''guest-1''", THEN conjunct1]
       Libvirt_init_checks_once[where hi = "\<lparr>getattr_qemuAgentCommand = Inl AttributeError\<rparr>"
         and e = AttributeError and u = "''guest-1''", THEN conjunct1]
       Libvirt_init_checks_once[where hi = demo_iface and u = "''guest-1''" and L = demo_lib
         and command = "''guest-ping''" and args = "PDict []", THEN conjunct2, rule_format, OF g]
       q
  show ?thesis
    by (simp add: json_dumps_def make_request_def)
qed

end
